theory Spec2Isabelle
  imports Complex_Main "HOL-Library.Product_Lexorder"
begin

section \<open>Python values\<close>

text \<open>
  A Python \<open>str\<close> is a sequence of Unicode code points, so it is modelled as a list of
  natural numbers (the OCR text of a mixed English / Meitei Mayek page is not ASCII).
  \<open>str ''abc''\<close> is the Python literal \<open>"abc"\<close>.
\<close>

type_synonym pystr = "nat list"

definition str :: "string \<Rightarrow> pystr" where
  "str s = map of_char s"

text \<open>
  Exceptions raised inside \<open>ocr_image\<close>. All of them are subclasses of \<open>Exception\<close>,
  which is what the function's handler catches.
\<close>

datatype exn = EngineError | KeyError | IndexError | ValueError | RuntimeError

definition bind :: "exn + 'a \<Rightarrow> ('a \<Rightarrow> exn + 'b) \<Rightarrow> exn + 'b" where
  "bind m f = (case m of Inl e \<Rightarrow> Inl e | Inr v \<Rightarrow> f v)"

text \<open>\<open>str.isspace\<close> on one code point: the characters \<open>split()\<close> and \<open>strip()\<close> treat as
  whitespace.\<close>

definition py_isspace :: "nat \<Rightarrow> bool" where
  "py_isspace c =
     ((9 \<le> c \<and> c \<le> 13) \<or> (28 \<le> c \<and> c \<le> 32) \<or> c = 133 \<or> c = 160 \<or> c = 5760 \<or>
      (8192 \<le> c \<and> c \<le> 8202) \<or> c = 8232 \<or> c = 8233 \<or> c = 8239 \<or> c = 8287 \<or> c = 12288)"

text \<open>\<open>s.strip()\<close>\<close>

definition py_strip :: "pystr \<Rightarrow> pystr" where
  "py_strip s = rev (dropWhile py_isspace (rev (dropWhile py_isspace s)))"

text \<open>\<open>s.split()\<close>: the maximal runs of non-whitespace characters; \<open>cur\<close> is the run being read.\<close>

fun split_ws :: "pystr \<Rightarrow> pystr \<Rightarrow> pystr list" where
  "split_ws cur [] = (if cur = [] then [] else [cur])"
| "split_ws cur (c # cs) =
     (if py_isspace c then (if cur = [] then split_ws [] cs else cur # split_ws [] cs)
      else split_ws (cur @ [c]) cs)"

definition py_split_ws :: "pystr \<Rightarrow> pystr list" where
  "py_split_ws s = split_ws [] s"

text \<open>\<open>s.split(sep)\<close> for a one-character separator: empty pieces are kept and the result
  is never the empty list.\<close>

fun split_on :: "nat \<Rightarrow> pystr \<Rightarrow> pystr \<Rightarrow> pystr list" where
  "split_on sep cur [] = [cur]"
| "split_on sep cur (c # cs) =
     (if c = sep then cur # split_on sep [] cs else split_on sep (cur @ [c]) cs)"

definition py_split :: "pystr \<Rightarrow> nat \<Rightarrow> pystr list" where
  "py_split s sep = split_on sep [] s"

text \<open>\<open>sep.join(xs)\<close>\<close>

fun py_join :: "pystr \<Rightarrow> pystr list \<Rightarrow> pystr" where
  "py_join sep [] = []"
| "py_join sep [x] = x"
| "py_join sep (x # y # ys) = x @ sep @ py_join sep (y # ys)"

text \<open>\<open>p in s\<close> on strings: \<open>p\<close> occurs in \<open>s\<close> as a substring.\<close>

fun py_in :: "pystr \<Rightarrow> pystr \<Rightarrow> bool" where
  "py_in p [] = (p = [])"
| "py_in p (c # cs) = (take (length p) (c # cs) = p \<or> py_in p cs)"

text \<open>\<open>s.splitlines()\<close>: the line boundaries are \<open>\n\<close>, \<open>\r\<close>, \<open>\r\n\<close>, \<open>\v\<close>, \<open>\f\<close>,
  \<open>\x1c\<close>, \<open>\x1d\<close>, \<open>\x1e\<close>, \<open>\x85\<close>, U+2028 and U+2029; a final line without
  a boundary is kept when it is not empty.\<close>

definition is_linebreak :: "nat \<Rightarrow> bool" where
  "is_linebreak c = ((10 \<le> c \<and> c \<le> 13) \<or> (28 \<le> c \<and> c \<le> 30) \<or> c = 133 \<or> c = 8232 \<or> c = 8233)"

fun split_lines :: "pystr \<Rightarrow> pystr \<Rightarrow> pystr list" where
  "split_lines cur [] = (if cur = [] then [] else [cur])"
| "split_lines cur [c] = (if is_linebreak c then [cur] else [cur @ [c]])"
| "split_lines cur (c # d # cs) =
     (if c = 13 \<and> d = 10 then cur # split_lines [] cs
      else if is_linebreak c then cur # split_lines [] (d # cs)
      else split_lines (cur @ [c]) (d # cs))"

definition py_splitlines :: "pystr \<Rightarrow> pystr list" where
  "py_splitlines s = split_lines [] s"

text \<open>\<open>min(xs)\<close> and \<open>max(xs)\<close> raise \<open>ValueError\<close> on an empty list.\<close>

definition py_min :: "int list \<Rightarrow> exn + int" where
  "py_min xs = (case xs of [] \<Rightarrow> Inl ValueError | x # rest \<Rightarrow> Inr (foldl min x rest))"

definition py_max :: "int list \<Rightarrow> exn + int" where
  "py_max xs = (case xs of [] \<Rightarrow> Inl ValueError | x # rest \<Rightarrow> Inr (foldl max x rest))"

text \<open>\<open>d[k][i]\<close> for a dictionary of lists: \<open>KeyError\<close> when the key is absent,
  \<open>IndexError\<close> when the list is too short.\<close>

definition subscript :: "'a list option \<Rightarrow> nat \<Rightarrow> exn + 'a" where
  "subscript col i =
     (case col of None \<Rightarrow> Inl KeyError
      | Some xs \<Rightarrow> if i < length xs then Inr (xs ! i) else Inl IndexError)"

section \<open>Images and the preprocessor\<close>

text \<open>
  A PIL image: its size and its pixels in row-major order. The pixel type is a parameter:
  the rasterizer's pages have whatever mode the renderer produced, a mode \<open>L\<close> or mode
  \<open>1\<close> image has one number per pixel.
\<close>

record 'p image =
  width :: int
  height :: int
  pixels :: "'p list"

text \<open>
  \<open>image.convert('L')\<close> maps every pixel to its luminance, a number in 0..255, and keeps
  the size. The per-pixel luminance formula belongs to PIL and is the parameter \<open>lum\<close>.
\<close>

definition convert_L :: "('p \<Rightarrow> nat) \<Rightarrow> 'p image \<Rightarrow> nat image" where
  "convert_L lum img =
     \<lparr>width = width img, height = height img, pixels = map lum (pixels img)\<rparr>"

text \<open>\<open>image.point(f, '1')\<close> on a mode \<open>L\<close> image applies the table \<open>f\<close> to every pixel.\<close>

definition point :: "(nat \<Rightarrow> nat) \<Rightarrow> nat image \<Rightarrow> nat image" where
  "point f img =
     \<lparr>width = width img, height = height img, pixels = map f (pixels img)\<rparr>"

text \<open>
  \<^verbatim>\<open>
  def preprocess_image(image):
      image = image.convert('L')
      image = image.point(lambda x: 0 if x < 128 else 255, '1')
      return image
  \<close>
\<close>

definition preprocess_image :: "('p \<Rightarrow> nat) \<Rightarrow> 'p image \<Rightarrow> nat image" where
  "preprocess_image lum img = point (\<lambda>x. if x < 128 then 0 else 255) (convert_L lum img)"

section \<open>The recognition engine\<close>

text \<open>
  The table \<open>pytesseract.image_to_data(..., output_type=Output.DICT)\<close> returns: a
  dictionary from column names to lists. A column is \<open>None\<close> when its key is absent
  (pytesseract returns an empty dictionary when the engine printed no rows). The text
  column holds strings, the others integers.
\<close>

record tess_data =
  col_text :: "pystr list option"
  col_conf :: "int list option"
  col_block_num :: "int list option"
  col_par_num :: "int list option"
  col_line_num :: "int list option"
  col_left :: "int list option"
  col_top :: "int list option"
  col_width :: "int list option"
  col_height :: "int list option"

text \<open>
  The external calls of \<open>ocr_image\<close>, each returning its value or the exception it raised:
  \<^item> \<open>get_languages\<close>: \<open>set(pytesseract.get_languages())\<close>, listed in the order in which
    Python iterates over that set;
  \<^item> \<open>image_to_osd image\<close>, \<open>image_to_data image lang\<close>, \<open>image_to_string image lang\<close>:
    the pytesseract functions of these names;
  \<^item> \<open>crop image box\<close>: PIL's \<open>image.crop(box)\<close>.
\<close>

record engine =
  get_languages :: "exn + pystr list"
  image_to_osd :: "nat image \<Rightarrow> exn + pystr"
  image_to_data :: "nat image \<Rightarrow> pystr \<Rightarrow> exn + tess_data"
  image_to_string :: "nat image \<Rightarrow> pystr \<Rightarrow> exn + pystr"
  crop :: "nat image \<Rightarrow> int \<times> int \<times> int \<times> int \<Rightarrow> exn + nat image"

section \<open>Script detection\<close>

text \<open>
  \<^verbatim>\<open>
  def detect_script(image) -> str:
      try:
          osd = pytesseract.image_to_osd(image)
          for line in osd.splitlines():
              if "Script" in line:
                  return line.split(":")[-1].strip()
      except Exception:
          pass
      return "Latin"  # Default fallback
  \<close>
  \<open>split\<close> never returns an empty list, so \<open>[-1]\<close> is always its last element.
\<close>

fun script_of_lines :: "pystr list \<Rightarrow> pystr" where
  "script_of_lines [] = str ''Latin''"
| "script_of_lines (line # rest) =
     (if py_in (str ''Script'') line then py_strip (last (py_split line (of_char CHR '':'')))
      else script_of_lines rest)"

definition detect_script :: "engine \<Rightarrow> nat image \<Rightarrow> pystr" where
  "detect_script eng img =
     (case image_to_osd eng img of
        Inl e \<Rightarrow> str ''Latin''
      | Inr osd \<Rightarrow> script_of_lines (py_splitlines osd))"

section \<open>Language tables\<close>

text \<open>\<open>SCRIPT_LANG_MAP\<close>, and \<open>SCRIPT_LANG_MAP.get(script, "eng")\<close>.\<close>

definition SCRIPT_LANG_MAP :: "(pystr \<times> pystr) list" where
  "SCRIPT_LANG_MAP =
     [(str ''Latin'', str ''eng''), (str ''Meetei_Mayek'', str ''mni''),
      (str ''Devanagari'', str ''hin''), (str ''Bengali'', str ''ben'')]"

definition script_lang :: "pystr \<Rightarrow> pystr" where
  "script_lang script = (case map_of SCRIPT_LANG_MAP script of None \<Rightarrow> str ''eng'' | Some l \<Rightarrow> l)"

text \<open>\<open>COMMON_ENG_WORDS\<close>, in the order of the source's set display (which lists \<open>no\<close> and
  \<open>of\<close> twice); only membership is ever asked of it.\<close>

definition COMMON_ENG_WORDS :: "pystr list" where
  "COMMON_ENG_WORDS = map str
     [''the'', ''be'', ''to'', ''of'', ''and'', ''a'', ''in'', ''that'', ''have'', ''i'', ''it'', ''for'', ''not'', ''on'', ''with'', ''he'', ''as'', ''you'', ''do'', ''at'',
      ''this'', ''but'', ''his'', ''by'', ''from'', ''they'', ''we'', ''say'', ''her'', ''she'', ''or'', ''an'', ''will'', ''my'', ''one'', ''all'', ''would'', ''there'',
      ''their'', ''what'', ''so'', ''up'', ''out'', ''if'', ''about'', ''who'', ''get'', ''which'', ''go'', ''me'', ''when'', ''make'', ''can'', ''like'', ''time'',
      ''no'', ''just'', ''him'', ''know'', ''take'', ''people'', ''into'', ''year'', ''your'', ''good'', ''some'', ''could'', ''them'', ''see'', ''other'', ''than'',
      ''then'', ''now'', ''look'', ''only'', ''come'', ''its'', ''over'', ''think'', ''also'', ''back'', ''after'', ''use'', ''two'', ''how'', ''our'', ''work'',
      ''first'', ''well'', ''way'', ''even'', ''new'', ''want'', ''because'', ''any'', ''these'', ''give'', ''day'', ''most'', ''us'', ''writ'', ''petition'',
      ''civil'', ''no'', ''of'', ''court'', ''judgment'', ''order'', ''case'', ''versus'', ''union'', ''india'', ''state'', ''manipur'', ''respondents'',
      ''petitioner'', ''advocate'', ''counsel'', ''honble'', ''justice'', ''mr'', ''mrs'', ''shri'', ''smt'', ''disclaimer'', ''vernacular'', ''meant'',
      ''restricted'', ''litigant'', ''understand'', ''language'', ''purpose'', ''practical'', ''official'', ''original'', ''version'', ''authentic'',
      ''field'', ''execution'', ''implementation'', ''high'', ''imphal'']"

section \<open>Language resolution\<close>

text \<open>
  \<^verbatim>\<open>
  if lang == "auto":
      script = detect_script(image)
      lang = SCRIPT_LANG_MAP.get(script, "eng")
  requested_langs = lang.split('+')
  valid_langs = [l for l in requested_langs if l in available_languages]
  \<close>
\<close>

definition effective_lang :: "engine \<Rightarrow> nat image \<Rightarrow> pystr \<Rightarrow> pystr" where
  "effective_lang eng img lang =
     (if lang = str ''auto'' then script_lang (detect_script eng img) else lang)"

definition valid_langs_of :: "pystr list \<Rightarrow> pystr \<Rightarrow> pystr list" where
  "valid_langs_of available_languages lang =
     filter (\<lambda>l. l \<in> set available_languages) (py_split lang (of_char CHR ''+''))"

text \<open>
  \<^verbatim>\<open>
  if not valid_langs:
      if 'eng' in available_languages:
          final_lang = 'eng'
      elif available_languages:
          final_lang = list(available_languages)[0]
      else:
          return None # No languages available at all
  else:
      final_lang = "+".join(valid_langs)
  \<close>
  \<open>None\<close> is the early \<open>return None\<close>.
\<close>

definition final_lang_of :: "pystr list \<Rightarrow> pystr list \<Rightarrow> pystr option" where
  "final_lang_of available_languages valid_langs =
     (if valid_langs = [] then
        (if str ''eng'' \<in> set available_languages then Some (str ''eng'')
         else if available_languages \<noteq> [] then Some (hd available_languages)
         else None)
      else Some (py_join (str ''+'') valid_langs))"

section \<open>Line segmentation\<close>

text \<open>
  The dictionary \<open>lines\<close>: an association list from the key \<open>(block, par, line)\<close> to the
  five lists collected for that line, in the order in which the keys were first seen.
\<close>

type_synonym line_key = "int \<times> int \<times> int"

record line_data =
  l_text :: "pystr list"
  l_left :: "int list"
  l_top :: "int list"
  l_width :: "int list"
  l_height :: "int list"

definition append_token :: "pystr \<times> int \<times> int \<times> int \<times> int \<Rightarrow> line_data \<Rightarrow> line_data" where
  "append_token tok ld =
     (case tok of (t, x, y, w, h) \<Rightarrow>
        \<lparr>l_text = l_text ld @ [t], l_left = l_left ld @ [x], l_top = l_top ld @ [y],
         l_width = l_width ld @ [w], l_height = l_height ld @ [h]\<rparr>)"

definition empty_line :: line_data where
  "empty_line = \<lparr>l_text = [], l_left = [], l_top = [], l_width = [], l_height = []\<rparr>"

fun add_token ::
  "line_key \<Rightarrow> pystr \<times> int \<times> int \<times> int \<times> int \<Rightarrow> (line_key \<times> line_data) list \<Rightarrow>
   (line_key \<times> line_data) list" where
  "add_token key tok [] = [(key, append_token tok empty_line)]"
| "add_token key tok ((k, ld) # rest) =
     (if k = key then (k, append_token tok ld) # rest else (k, ld) # add_token key tok rest)"

text \<open>
  One round of the grouping loop:
  \<^verbatim>\<open>
  if int(data['conf'][i]) == -1: continue
  key = (data['block_num'][i], data['par_num'][i], data['line_num'][i])
  if key not in lines:
      lines[key] = {'text': [], 'left': [], 'top': [], 'width': [], 'height': []}
  lines[key]['text'].append(data['text'][i])
  lines[key]['left'].append(data['left'][i])
  lines[key]['top'].append(data['top'][i])
  lines[key]['width'].append(data['width'][i])
  lines[key]['height'].append(data['height'][i])
  \<close>
\<close>

definition group_step ::
  "tess_data \<Rightarrow> nat \<Rightarrow> (line_key \<times> line_data) list \<Rightarrow> exn + (line_key \<times> line_data) list" where
  "group_step data i lines =
     bind (subscript (col_conf data) i) (\<lambda>conf.
       if conf = - 1 then Inr lines
       else
         bind (subscript (col_block_num data) i) (\<lambda>b.
         bind (subscript (col_par_num data) i) (\<lambda>p.
         bind (subscript (col_line_num data) i) (\<lambda>l.
         bind (subscript (col_text data) i) (\<lambda>t.
         bind (subscript (col_left data) i) (\<lambda>x.
         bind (subscript (col_top data) i) (\<lambda>y.
         bind (subscript (col_width data) i) (\<lambda>w.
         bind (subscript (col_height data) i) (\<lambda>h.
           Inr (add_token (b, p, l) (t, x, y, w, h) lines))))))))))"

text \<open>\<open>for i in range(n_boxes)\<close>, started with \<open>lines = {}\<close>.\<close>

fun group_loop ::
  "tess_data \<Rightarrow> nat list \<Rightarrow> (line_key \<times> line_data) list \<Rightarrow> exn + (line_key \<times> line_data) list" where
  "group_loop data [] lines = Inr lines"
| "group_loop data (i # rest) lines =
     (case group_step data i lines of Inl e \<Rightarrow> Inl e | Inr lines' \<Rightarrow> group_loop data rest lines')"

definition group_lines :: "tess_data \<Rightarrow> nat \<Rightarrow> exn + (line_key \<times> line_data) list" where
  "group_lines data n_boxes = group_loop data [0..<n_boxes] []"

section \<open>Line classification\<close>

text \<open>
  \<^verbatim>\<open>
  tokens = [re.sub(r'[^a-zA-Z]', '', t).lower() for t in line_text_eng.split()]
  tokens = [t for t in tokens if t]
  is_eng = False
  if tokens:
      match_count = sum(1 for t in tokens if t in COMMON_ENG_WORDS)
      score = match_count / len(tokens)
      if score >= 0.2: # Threshold
          is_eng = True
  \<close>
  After the substitution only the letters A-Z and a-z are left, so \<open>lower()\<close> is the ASCII
  one. The score is the exact quotient: Python's division of two integers is correctly
  rounded and the literal \<open>0.2\<close> is the double nearest to one fifth, so the comparison of
  doubles agrees with the comparison of the exact quotient with one fifth on every line of
  fewer than \<open>2 ^ 56\<close> tokens.
\<close>

definition is_ascii_letter :: "nat \<Rightarrow> bool" where
  "is_ascii_letter c = ((65 \<le> c \<and> c \<le> 90) \<or> (97 \<le> c \<and> c \<le> 122))"

definition lower :: "nat \<Rightarrow> nat" where
  "lower c = (if 65 \<le> c \<and> c \<le> 90 then c + 32 else c)"

definition normalize_token :: "pystr \<Rightarrow> pystr" where
  "normalize_token t = map lower (filter is_ascii_letter t)"

definition line_tokens :: "pystr \<Rightarrow> pystr list" where
  "line_tokens line_text_eng =
     filter (\<lambda>t. t \<noteq> []) (map normalize_token (py_split_ws line_text_eng))"

definition match_count :: "pystr list \<Rightarrow> nat" where
  "match_count tokens = length (filter (\<lambda>t. t \<in> set COMMON_ENG_WORDS) tokens)"

definition score :: "pystr list \<Rightarrow> rat" where
  "score tokens = of_nat (match_count tokens) / of_nat (length tokens)"

definition is_eng :: "pystr \<Rightarrow> bool" where
  "is_eng line_text_eng =
     (let tokens = line_tokens line_text_eng
      in if tokens \<noteq> [] then score tokens \<ge> 2 / 10 else False)"

section \<open>Hybrid recognition\<close>

text \<open>
  \<^verbatim>\<open>
  x_min = min(l_data['left'])
  y_min = min(l_data['top'])
  x_max = max([l+w for l, w in zip(l_data['left'], l_data['width'])])
  y_max = max([t+h for t, h in zip(l_data['top'], l_data['height'])])
  padding = 5
  crop = image.crop((max(0, x_min - padding), max(0, y_min - padding),
                     min(image.width, x_max + padding), min(image.height, y_max + padding)))
  \<close>
  \<open>crop_box\<close> is the tuple handed to \<open>image.crop\<close>.
\<close>

definition padding :: int where
  "padding = 5"

definition crop_box :: "nat image \<Rightarrow> line_data \<Rightarrow> exn + (int \<times> int \<times> int \<times> int)" where
  "crop_box img l_data =
     bind (py_min (l_left l_data)) (\<lambda>x_min.
     bind (py_min (l_top l_data)) (\<lambda>y_min.
     bind (py_max (map (\<lambda>(l, w). l + w) (zip (l_left l_data) (l_width l_data)))) (\<lambda>x_max.
     bind (py_max (map (\<lambda>(t, h). t + h) (zip (l_top l_data) (l_height l_data)))) (\<lambda>y_max.
       Inr (max 0 (x_min - padding), max 0 (y_min - padding),
            min (width img) (x_max + padding), min (height img) (y_max + padding))))))"

text \<open>\<open>mni_text = pytesseract.image_to_string(crop, lang='mni').strip()\<close>\<close>

definition reocr_line :: "engine \<Rightarrow> nat image \<Rightarrow> line_data \<Rightarrow> exn + pystr" where
  "reocr_line eng img l_data =
     bind (crop_box img l_data) (\<lambda>box.
     bind (crop eng img box) (\<lambda>cropped.
     bind (image_to_string eng cropped (str ''mni'')) (\<lambda>t. Inr (py_strip t))))"

definition newline :: pystr where
  "newline = [10]"

text \<open>
  The loop over \<open>sorted_keys\<close>, with \<open>final_text\<close> as accumulator:
  \<^verbatim>\<open>
  for key in sorted_keys:
      l_data = lines[key]
      line_text_eng = " ".join(l_data['text']).strip()
      if not line_text_eng: continue
      ...
      if is_eng:
          final_text += line_text_eng + "\n"
      else:
          ...
          final_text += mni_text + "\n"
  return final_text
  \<close>
\<close>

fun hybrid_loop ::
  "engine \<Rightarrow> nat image \<Rightarrow> (line_key \<times> line_data) list \<Rightarrow> line_key list \<Rightarrow> pystr \<Rightarrow> exn + pystr" where
  "hybrid_loop eng img lines [] final_text = Inr final_text"
| "hybrid_loop eng img lines (key # keys) final_text =
     (case map_of lines key of
        None \<Rightarrow> Inl KeyError
      | Some l_data \<Rightarrow>
          (let line_text_eng = py_strip (py_join (str '' '') (l_text l_data))
           in if line_text_eng = [] then hybrid_loop eng img lines keys final_text
              else if is_eng line_text_eng
              then hybrid_loop eng img lines keys (final_text @ line_text_eng @ newline)
              else (case reocr_line eng img l_data of
                      Inl e \<Rightarrow> Inl e
                    | Inr mni_text \<Rightarrow>
                        hybrid_loop eng img lines keys (final_text @ mni_text @ newline))))"

section \<open>Recognition of one page\<close>

text \<open>
  The body of the \<open>try\<close> block of \<open>ocr_image\<close>. \<open>Inl e\<close>: the exception \<open>e\<close> left the
  block; \<open>Inr None\<close>: the block ran \<open>return None\<close>; \<open>Inr (Some t)\<close>: it returned the
  string \<open>t\<close>.
  \<^verbatim>\<open>
  available_languages = set(pytesseract.get_languages())
  ... (language resolution, above)
  if 'mni' in valid_langs and 'eng' in valid_langs:
      data = pytesseract.image_to_data(image, lang='eng', output_type=Output.DICT)
      if 'text' not in data:
          return pytesseract.image_to_string(image, lang=final_lang)
      n_boxes = len(data['text'])
      ... (grouping loop)
      sorted_keys = sorted(lines.keys())
      final_text = ""
      ... (loop over sorted_keys)
      return final_text
  return pytesseract.image_to_string(image, lang=final_lang)
  \<close>
\<close>

definition ocr_image_body :: "engine \<Rightarrow> nat image \<Rightarrow> pystr \<Rightarrow> exn + pystr option" where
  "ocr_image_body eng img lang =
     bind (get_languages eng) (\<lambda>available_languages.
       let valid_langs = valid_langs_of available_languages (effective_lang eng img lang)
       in case final_lang_of available_languages valid_langs of
            None \<Rightarrow> Inr None
          | Some final_lang \<Rightarrow>
              if str ''mni'' \<in> set valid_langs \<and> str ''eng'' \<in> set valid_langs then
                bind (image_to_data eng img (str ''eng'')) (\<lambda>data.
                  case col_text data of
                    None \<Rightarrow> bind (image_to_string eng img final_lang) (\<lambda>t. Inr (Some t))
                  | Some texts \<Rightarrow>
                      bind (group_lines data (length texts)) (\<lambda>lines.
                      bind (hybrid_loop eng img lines (sort (map fst lines)) []) (\<lambda>final_text.
                        Inr (Some final_text))))
              else bind (image_to_string eng img final_lang) (\<lambda>t. Inr (Some t)))"

text \<open>
  \<^verbatim>\<open>
  def ocr_image(image, lang):
      try:
          ...
      except Exception as e:
          print(f"OCR Error: {e}")
          return None
  \<close>
\<close>

definition ocr_image :: "engine \<Rightarrow> nat image \<Rightarrow> pystr \<Rightarrow> pystr option" where
  "ocr_image eng img lang = (case ocr_image_body eng img lang of Inl e \<Rightarrow> None | Inr r \<Rightarrow> r)"

section \<open>Extraction of a document\<close>

text \<open>The page status is one of the strings \<open>"success"\<close>, \<open>"ocr_failed"\<close> and \<open>"edited"\<close>.\<close>

datatype status = success | ocr_failed | edited

record page =
  page_number :: int
  page_text :: pystr
  page_status :: status

record document =
  doc_id :: pystr
  source_file :: pystr
  language :: pystr
  page_count :: int
  pages :: "page list"

text \<open>
  \<^verbatim>\<open>
  def pdf_to_images(pdf_path):
      try:
          return convert_from_path(pdf_path, poppler_path=poppler_path)
      except Exception as e:
          raise RuntimeError(f"Failed to convert PDF: {e}")
  \<close>
  \<open>convert_from_path\<close> is pdf2image's renderer, a parameter.
\<close>

definition pdf_to_images :: "(pystr \<Rightarrow> exn + 'p image list) \<Rightarrow> pystr \<Rightarrow> exn + 'p image list" where
  "pdf_to_images convert_from_path pdf_path =
     (case convert_from_path pdf_path of Inl e \<Rightarrow> Inl RuntimeError | Inr images \<Rightarrow> Inr images)"

text \<open>
  One round of the page loop. A value is false in Python when it is \<open>None\<close> or the empty
  string.
  \<^verbatim>\<open>
  page_number = i + 1
  processed = preprocess_image(image)
  text = ocr_image(processed, lang=language or "auto")
  result["pages"].append({
      "page_number": page_number,
      "text": text if text else "",
      "status": "success" if text else "ocr_failed"
  })
  \<close>
\<close>

definition truthy :: "pystr option \<Rightarrow> bool" where
  "truthy text = (case text of None \<Rightarrow> False | Some t \<Rightarrow> t \<noteq> [])"

definition make_page :: "engine \<Rightarrow> ('p \<Rightarrow> nat) \<Rightarrow> pystr \<Rightarrow> nat \<Rightarrow> 'p image \<Rightarrow> page" where
  "make_page eng lum lang i img =
     (let processed = preprocess_image lum img;
          text = ocr_image eng processed (if lang = [] then str ''auto'' else lang)
      in \<lparr>page_number = int i + 1,
          page_text = (case text of None \<Rightarrow> [] | Some t \<Rightarrow> t),
          page_status = (if truthy text then success else ocr_failed)\<rparr>)"

text \<open>\<open>for i, image in enumerate(images)\<close>, from index \<open>i\<close> on.\<close>

fun pages_loop :: "engine \<Rightarrow> ('p \<Rightarrow> nat) \<Rightarrow> pystr \<Rightarrow> nat \<Rightarrow> 'p image list \<Rightarrow> page list" where
  "pages_loop eng lum lang i [] = []"
| "pages_loop eng lum lang i (img # rest) =
     make_page eng lum lang i img # pages_loop eng lum lang (Suc i) rest"

text \<open>
  \<^verbatim>\<open>
  def extract_text_from_pdf(pdf_path, language, doc_id, original_filename):
      images = pdf_to_images(pdf_path)
      if not images:
          return None
      result = {"id": doc_id, "source_file": original_filename, "language": language,
                "page_count": len(images), "pages": []}
      for i, image in enumerate(images): ...
      return result
  \<close>
  \<open>Inl e\<close>: the exception of \<open>pdf_to_images\<close>, which nothing catches.
\<close>

definition extract_text_from_pdf ::
  "engine \<Rightarrow> (pystr \<Rightarrow> exn + 'p image list) \<Rightarrow> ('p \<Rightarrow> nat) \<Rightarrow>
   pystr \<Rightarrow> pystr \<Rightarrow> pystr \<Rightarrow> pystr \<Rightarrow> exn + document option" where
  "extract_text_from_pdf eng convert_from_path lum pdf_path lang did original_filename =
     bind (pdf_to_images convert_from_path pdf_path) (\<lambda>images.
       if images = [] then Inr None
       else Inr (Some \<lparr>doc_id = did, source_file = original_filename, language = lang,
                       page_count = int (length images),
                       pages = pages_loop eng lum lang 0 images\<rparr>))"

section \<open>Editing a page\<close>

text \<open>
  The store \<open>db\<close> is the list of its documents. \<open>db.get(Document.id == doc_id)\<close> is the
  first document with that id; \<open>db.update(document, Document.id == doc_id)\<close> writes the
  fields of \<open>document\<close> into every document with that id.
\<close>

definition db_get :: "document list \<Rightarrow> pystr \<Rightarrow> document option" where
  "db_get db did = find (\<lambda>d. doc_id d = did) db"

definition db_update :: "document \<Rightarrow> pystr \<Rightarrow> document list \<Rightarrow> document list" where
  "db_update doc did db = map (\<lambda>d. if doc_id d = did then doc else d) db"

datatype http_exception = HTTPException nat string

datatype edit_response = Text_updated pystr int

text \<open>
  The loop over the pages; \<open>None\<close> when it ends with \<open>updated\<close> still false.
  \<^verbatim>\<open>
  updated = False
  for page in document["pages"]:
      if page["page_number"] == page_number:
          page["text"] = new_text
          page["status"] = "edited"
          updated = True
          break
  \<close>
\<close>

fun edit_pages :: "int \<Rightarrow> pystr \<Rightarrow> page list \<Rightarrow> page list option" where
  "edit_pages n new_text [] = None"
| "edit_pages n new_text (p # ps) =
     (if page_number p = n then Some (p\<lparr>page_text := new_text, page_status := edited\<rparr> # ps)
      else (case edit_pages n new_text ps of None \<Rightarrow> None | Some ps' \<Rightarrow> Some (p # ps')))"

text \<open>
  \<^verbatim>\<open>
  def edit_page_text(doc_id, page_number, new_text, current_user):
      document = db.get(Document.id == doc_id)
      if not document:
          raise HTTPException(status_code=404, detail="Document not found")
      ... (loop)
      if not updated:
          raise HTTPException(status_code=404, detail="Page not found in document")
      db.update(document, Document.id == doc_id)
      return {"message": "Text updated", "doc_id": doc_id, "page_number": page_number}
  \<close>
  The result is the response or the exception raised, with the store afterwards.
\<close>

definition edit_page_text ::
  "document list \<Rightarrow> pystr \<Rightarrow> int \<Rightarrow> pystr \<Rightarrow> (http_exception + edit_response) \<times> document list" where
  "edit_page_text db did n new_text =
     (case db_get db did of
        None \<Rightarrow> (Inl (HTTPException 404 ''Document not found''), db)
      | Some doc \<Rightarrow>
          (case edit_pages n new_text (pages doc) of
             None \<Rightarrow> (Inl (HTTPException 404 ''Page not found in document''), db)
           | Some ps \<Rightarrow> (Inr (Text_updated did n), db_update (doc\<lparr>pages := ps\<rparr>) did db)))"

section \<open>Auxiliary predicates and example inputs\<close>

text \<open>A line of the dictionary \<open>lines\<close> that holds at least one token, with one width and
  one height for each left and top.\<close>

definition line_ok :: "line_data \<Rightarrow> bool" where
  "line_ok ld = (l_left ld \<noteq> [] \<and> l_top ld \<noteq> [] \<and> length (l_width ld) = length (l_left ld) \<and>
     length (l_height ld) = length (l_top ld))"

text \<open>An RGB page of four pixels, with the luminance PIL computes for \<open>convert('L')\<close> of
  an RGB pixel (ITU-R 601-2 in 16-bit fixed point, rounded to nearest).\<close>

definition rgb_lum :: "nat \<times> nat \<times> nat \<Rightarrow> nat" where
  "rgb_lum p =
     (case p of (r, g, b) \<Rightarrow> (r * 19595 + g * 38470 + b * 7471 + 32768) div 65536)"

definition example_raster :: "(nat \<times> nat \<times> nat) image" where
  "example_raster =
     \<lparr>width = 2, height = 2,
      pixels = [(0, 0, 0), (255, 255, 255), (200, 100, 50), (90, 140, 200)]\<rparr>"

text \<open>A preprocessed page of 12 by 4 pixels and a table for it: one row that is not text
  (confidence \<open>-1\<close>) and the two words of one line.\<close>

definition example_page :: "nat image" where
  "example_page = \<lparr>width = 12, height = 4, pixels = replicate 48 255\<rparr>"

definition example_data :: tess_data where
  "example_data =
     \<lparr>col_text = Some [[], str ''xyzabc'', str ''qqrrss''],
      col_conf = Some [- 1, 91, 88],
      col_block_num = Some [1, 1, 1],
      col_par_num = Some [1, 1, 1],
      col_line_num = Some [1, 1, 1],
      col_left = Some [1, 1, 6],
      col_top = Some [0, 0, 0],
      col_width = Some [10, 4, 5],
      col_height = Some [3, 3, 3]\<rparr>"

definition example_line :: line_data where
  "example_line =
     \<lparr>l_text = [str ''xyzabc'', str ''qqrrss''], l_left = [1, 6], l_top = [0, 0],
      l_width = [4, 5], l_height = [3, 3]\<rparr>"

text \<open>
  An engine for the examples: it reports the languages \<open>langs\<close> and the orientation report
  \<open>osd\<close>, segments every image into \<open>example_data\<close>, and recognizes every image as the
  language code it was given followed by \<open>": text"\<close>.
\<close>

definition example_engine :: "pystr list \<Rightarrow> pystr \<Rightarrow> engine" where
  "example_engine langs osd =
     \<lparr>get_languages = Inr langs,
      image_to_osd = (\<lambda>img. Inr osd),
      image_to_data = (\<lambda>img lang. Inr example_data),
      image_to_string = (\<lambda>img lang. Inr (lang @ str '': text'')),
      crop = (\<lambda>img box. case box of (l, t, r, b) \<Rightarrow> Inr
                \<lparr>width = r - l, height = b - t, pixels = replicate (nat ((r - l) * (b - t))) 255\<rparr>
)\<rparr>"

text \<open>Two orientation reports: a complete one, and one whose \<open>Script\<close> line is missing.\<close>

definition example_osd :: pystr where
  "example_osd = str ''Rotate: 0'' @ [10] @ str ''Script: Meetei_Mayek'' @ [10] @
     str ''Script confidence: 2.50'' @ [10]"

definition osd_without_script :: pystr where
  "osd_without_script = str ''Rotate: 0'' @ [10] @ str ''Script confidence: 2.50'' @ [10]"

text \<open>A second RGB page, all white, and a renderer that returns the two pages for every
  path.\<close>

definition blank_raster :: "(nat \<times> nat \<times> nat) image" where
  "blank_raster =
     \<lparr>width = 2, height = 2,
      pixels = [(255, 255, 255), (255, 255, 255), (255, 255, 255), (255, 255, 255)]\<rparr>"

definition example_pdf :: "pystr \<Rightarrow> exn + (nat \<times> nat \<times> nat) image list" where
  "example_pdf pdf_path = Inr [example_raster, blank_raster]"

text \<open>An engine with \<open>eng\<close> installed whose recognition raises on the all-white page.\<close>

definition flaky_engine :: engine where
  "flaky_engine =
     (example_engine [str ''eng''] example_osd)
       \<lparr>image_to_string :=
          (\<lambda>img lang. if pixels img = [255, 255, 255, 255] then Inl EngineError
                       else Inr (str ''the court''))\<rparr>"

text \<open>An engine with \<open>eng\<close> and \<open>mni\<close> installed whose recognition raises for the language
  \<open>mni\<close> only.\<close>

definition mni_failing_engine :: engine where
  "mni_failing_engine =
     (example_engine [str ''eng'', str ''mni''] example_osd)
       \<lparr>image_to_string :=
          (\<lambda>img lang. if lang = str ''mni'' then Inl EngineError else Inr (lang @ str '': text''))\<rparr>"

text \<open>The pages of a document are numbered when they carry the numbers 1, 2, ... in order.\<close>

definition numbered :: "page list \<Rightarrow> bool" where
  "numbered ps = (map page_number ps = map (\<lambda>j. int j + 1) [0..<length ps])"

text \<open>A stored document of five pages, in a store of two documents.\<close>

definition example_doc :: document where
  "example_doc =
     \<lparr>doc_id = str ''d1'', source_file = str ''a.pdf'', language = str ''eng'', page_count = 5,
      pages = [\<lparr>page_number = 1, page_text = str ''one'', page_status = success\<rparr>,
               \<lparr>page_number = 2, page_text = [], page_status = ocr_failed\<rparr>,
               \<lparr>page_number = 3, page_text = str ''three'', page_status = success\<rparr>,
               \<lparr>page_number = 4, page_text = str ''four'', page_status = edited\<rparr>,
               \<lparr>page_number = 5, page_text = str ''five'', page_status = success\<rparr>]\<rparr>"

definition other_doc :: document where
  "other_doc =
     \<lparr>doc_id = str ''d2'', source_file = str ''b.pdf'', language = str ''auto'', page_count = 1,
      pages = [\<lparr>page_number = 1, page_text = str ''uno'', page_status = success\<rparr>]\<rparr>"

text \<open>An engine with \<open>eng\<close> and \<open>mni\<close> installed whose recognition raises exactly when it is
  handed the joined code \<open>mni+eng\<close>.\<close>

definition joined_code_failing_engine :: engine where
  "joined_code_failing_engine =
     (example_engine [str ''eng'', str ''mni''] example_osd)
       \<lparr>image_to_string :=
          (\<lambda>img lang. if lang = str ''mni+eng'' then Inl EngineError
                       else Inr (lang @ str '': text''))\<rparr>"

section \<open>Properties\<close>

subsection \<open>Exceptions\<close>

lemma bind_Inr [simp]: "bind (Inr v) f = f v"
  by (simp add: bind_def)

lemma bind_Inl [simp]: "bind (Inl e) f = Inl e"
  by (simp add: bind_def)

lemma bind_eq_Inr: "bind m f = Inr r \<longleftrightarrow> (\<exists>v. m = Inr v \<and> f v = Inr r)"
  by (cases m) simp_all

subsection \<open>The preprocessor\<close>

text \<open>
  Claim C7. The preprocessor converts the page to grayscale and then binarizes it at 128:
  the result has the size of the input and, pixel by pixel, is black (0) where the
  luminance is below 128 and white (255) elsewhere. It is a function of the grayscale
  image alone, so the same input always gives the same output.
\<close>

theorem preprocess_image_binarizes:
  "width (preprocess_image lum img) = width img \<and>
   height (preprocess_image lum img) = height img \<and>
   pixels (preprocess_image lum img) = map (\<lambda>p. if lum p < 128 then 0 else 255) (pixels img) \<and>
   preprocess_image lum img = point (\<lambda>x. if x < 128 then 0 else 255) (convert_L lum img) \<and>
   (\<forall>lum' img'. convert_L lum' img' = convert_L lum img \<longrightarrow>
      preprocess_image lum' img' = preprocess_image lum img)"
  by (simp add: preprocess_image_def point_def convert_L_def)

theorem preprocess_image_binarizes_witness:
  "pixels (preprocess_image rgb_lum example_raster) = [0, 255, 0, 255] \<and>
   width (preprocess_image rgb_lum example_raster) = 2 \<and>
   height (preprocess_image rgb_lum example_raster) = 2"
proof -
  note t = preprocess_image_binarizes [of rgb_lum example_raster]
  have "pixels (preprocess_image rgb_lum example_raster) = [0, 255, 0, 255]"
    using t [THEN conjunct2, THEN conjunct2, THEN conjunct1]
    by (simp add: example_raster_def rgb_lum_def)
  moreover have "width (preprocess_image rgb_lum example_raster) = 2"
    using t [THEN conjunct1] by (simp add: example_raster_def)
  moreover have "height (preprocess_image rgb_lum example_raster) = 2"
    using t [THEN conjunct2, THEN conjunct1] by (simp add: example_raster_def)
  ultimately show ?thesis by simp
qed

subsection \<open>The crop rectangle\<close>

lemma py_min_Inr: "xs \<noteq> [] \<Longrightarrow> \<exists>m. py_min xs = Inr m"
  by (cases xs) (simp_all add: py_min_def)

lemma py_max_Inr: "xs \<noteq> [] \<Longrightarrow> \<exists>m. py_max xs = Inr m"
  by (cases xs) (simp_all add: py_max_def)

lemma crop_box_ok:
  assumes "line_ok ld"
  shows "\<exists>cl ct cr cb. crop_box img ld = Inr (cl, ct, cr, cb) \<and> 0 \<le> cl \<and> 0 \<le> ct \<and>
           cr \<le> width img \<and> cb \<le> height img"
proof -
  from assms have a: "l_left ld \<noteq> []" and b: "l_top ld \<noteq> []"
    and c: "zip (l_left ld) (l_width ld) \<noteq> []" and d: "zip (l_top ld) (l_height ld) \<noteq> []"
    by (auto simp: line_ok_def)
  obtain x1 where x1: "py_min (l_left ld) = Inr x1" using py_min_Inr[OF a] by blast
  obtain y1 where y1: "py_min (l_top ld) = Inr y1" using py_min_Inr[OF b] by blast
  obtain x2 where x2: "py_max (map (\<lambda>(l, w). l + w) (zip (l_left ld) (l_width ld))) = Inr x2"
    using py_max_Inr[of "map (\<lambda>(l, w). l + w) (zip (l_left ld) (l_width ld))"] c by auto
  obtain y2 where y2: "py_max (map (\<lambda>(t, h). t + h) (zip (l_top ld) (l_height ld))) = Inr y2"
    using py_max_Inr[of "map (\<lambda>(t, h). t + h) (zip (l_top ld) (l_height ld))"] d by auto
  show ?thesis by (simp add: crop_box_def x1 y1 x2 y2)
qed

lemma append_token_ok: "line_ok ld \<or> ld = empty_line \<Longrightarrow> line_ok (append_token tok ld)"
  by (cases tok) (auto simp: line_ok_def append_token_def empty_line_def)

lemma add_token_ok:
  "list_all (\<lambda>kl. line_ok (snd kl)) lines \<Longrightarrow>
   list_all (\<lambda>kl. line_ok (snd kl)) (add_token key tok lines)"
proof (induction lines)
  case Nil
  show ?case by (simp add: append_token_ok)
next
  case (Cons kl lines)
  obtain k ld where kl: "kl = (k, ld)" by (cases kl)
  from Cons show ?case by (simp add: kl append_token_ok)
qed

lemma group_step_ok:
  assumes "group_step data i lines = Inr lines'" and "list_all (\<lambda>kl. line_ok (snd kl)) lines"
  shows "list_all (\<lambda>kl. line_ok (snd kl)) lines'"
proof (cases "subscript (col_conf data) i = Inr (- 1)")
  case True
  with assms show ?thesis by (simp add: group_step_def)
next
  case False
  with assms(1) obtain key tok where "lines' = add_token key tok lines"
    by (auto simp: group_step_def bind_eq_Inr split: if_splits)
  with assms(2) show ?thesis by (simp add: add_token_ok)
qed

lemma group_loop_ok:
  "group_loop data is lines = Inr lines' \<Longrightarrow> list_all (\<lambda>kl. line_ok (snd kl)) lines \<Longrightarrow>
   list_all (\<lambda>kl. line_ok (snd kl)) lines'"
proof (induction "is" arbitrary: lines)
  case Nil
  then show ?case by simp
next
  case (Cons i rest)
  from Cons.prems(1) obtain l2 where s: "group_step data i lines = Inr l2"
    and r: "group_loop data rest l2 = Inr lines'"
    by (auto split: sum.splits)
  from Cons.IH[OF r group_step_ok[OF s Cons.prems(2)]] show ?case .
qed

lemma group_lines_ok:
  "group_lines data n = Inr lines \<Longrightarrow> (key, ld) \<in> set lines \<Longrightarrow> line_ok ld"
  using group_loop_ok[of data "[0..<n]" "[]" lines] by (auto simp: group_lines_def list_all_iff)

lemma example_group_lines: "group_lines example_data 3 = Inr [((1, 1, 1), example_line)]"
  by (simp add: group_lines_def upt_rec group_step_def subscript_def example_data_def
      append_token_def empty_line_def example_line_def)

text \<open>
  Claim C5. For every line region that the grouping loop builds (so for every not-primary
  line that is re-recognized), the crop rectangle is computed without error and lies inside
  the image: its left and top are at least 0, its right is at most the image width and its
  bottom at most the image height.
\<close>

theorem crop_box_within_image:
  assumes "group_lines data n_boxes = Inr lines" and "(key, l_data) \<in> set lines"
  shows "\<exists>cl ct cr cb. crop_box img l_data = Inr (cl, ct, cr, cb) \<and>
           0 \<le> cl \<and> 0 \<le> ct \<and> cr \<le> width img \<and> cb \<le> height img"
  using crop_box_ok[OF group_lines_ok[OF assms]] .

theorem crop_box_within_image_witness:
  "group_lines example_data 3 = Inr [((1, 1, 1), example_line)] \<and>
   (\<exists>cl ct cr cb. crop_box example_page example_line = Inr (cl, ct, cr, cb) \<and>
      0 \<le> cl \<and> 0 \<le> ct \<and> cr \<le> width example_page \<and> cb \<le> height example_page) \<and>
   crop_box example_page example_line = Inr (0, 0, 12, 4)"
proof -
  have m: "((1, 1, 1), example_line) \<in> set [((1, 1, 1), example_line)]" by simp
  have c: "crop_box example_page example_line = Inr (0, 0, 12, 4)"
    by (simp add: crop_box_def py_min_def py_max_def example_line_def example_page_def padding_def)
  from crop_box_within_image[OF example_group_lines m, of example_page] example_group_lines c
  show ?thesis by blast
qed

subsection \<open>The line classifier\<close>


lemma split_ws_chars: "t \<in> set (split_ws cur s) \<Longrightarrow> set t \<subseteq> set cur \<union> set s"
proof (induction s arbitrary: cur)
  case Nil then show ?case by (auto split: if_splits)
next
  case (Cons c cs)
  show ?case
  proof (cases "py_isspace c")
    case True
    with Cons.prems have "t = cur \<or> t \<in> set (split_ws [] cs)" by (auto split: if_splits)
    then show ?thesis using Cons.IH[of "[]"] by auto
  next
    case False
    with Cons.prems have "t \<in> set (split_ws (cur @ [c]) cs)" by simp
    from Cons.IH[OF this] show ?thesis by auto
  qed
qed

lemma normalize_token_chars: "c \<in> set (normalize_token t) \<Longrightarrow> 97 \<le> c \<and> c \<le> 122"
  by (auto simp: normalize_token_def lower_def is_ascii_letter_def)

lemma normalize_token_no_letters: "\<forall>c \<in> set t. \<not> is_ascii_letter c \<Longrightarrow> normalize_token t = []"
  by (simp add: normalize_token_def filter_empty_conv)

lemma line_tokens_no_letters:
  assumes "\<forall>c \<in> set line. \<not> is_ascii_letter c"
  shows "line_tokens line = []"
proof -
  have "normalize_token t = []" if "t \<in> set (py_split_ws line)" for t
  proof -
    from that have "set t \<subseteq> set line" using split_ws_chars[of t "[]" line]
      by (simp add: py_split_ws_def)
    with assms show ?thesis by (intro normalize_token_no_letters) blast
  qed
  then show ?thesis by (simp add: line_tokens_def filter_empty_conv)
qed

lemma score_ge_iff:
  assumes "tokens \<noteq> []"
  shows "(2 / 10 \<le> score tokens) = (length tokens \<le> 5 * match_count tokens)"
proof -
  have pos: "(0::rat) < of_nat (length tokens)" using assms by simp
  have "(2 / 10 \<le> score tokens) = ((of_nat (length tokens) :: rat) \<le> of_nat (5 * match_count tokens))"
    unfolding score_def using pos by (simp add: le_divide_eq mult.commute)
  also have "\<dots> = (length tokens \<le> 5 * match_count tokens)" by (rule of_nat_le_iff)
  finally show ?thesis .
qed

lemma match_count_all:
  "\<forall>t \<in> set tokens. t \<in> set COMMON_ENG_WORDS \<Longrightarrow> match_count tokens = length tokens"
  by (simp add: match_count_def)

text \<open>
  Claim C3. A line is primary exactly when it has at least one normalized token and the
  share of its normalized tokens found in the vocabulary is at least 0.2 (five times the
  matches reach the number of tokens). The normalized tokens are the whitespace-separated
  words with every character but A-Z and a-z removed, in lower case, the empty ones dropped:
  each is a non-empty string of the letters a-z. A line whose normalized tokens are all in
  the vocabulary has ratio 1 and is primary; a line with no normalized token, such as one
  without any letter, is not primary.
\<close>

theorem line_classifier:
  "(is_eng line \<longleftrightarrow> line_tokens line \<noteq> [] \<and> 2 / 10 \<le> score (line_tokens line)) \<and>
   (is_eng line \<longleftrightarrow>
      line_tokens line \<noteq> [] \<and> length (line_tokens line) \<le> 5 * match_count (line_tokens line)) \<and>
   line_tokens line =
     filter (\<lambda>t. t \<noteq> []) (map (\<lambda>t. map lower (filter is_ascii_letter t)) (py_split_ws line)) \<and>
   (\<forall>t \<in> set (line_tokens line). t \<noteq> [] \<and> (\<forall>c \<in> set t. 97 \<le> c \<and> c \<le> 122)) \<and>
   (line_tokens line \<noteq> [] \<and> (\<forall>t \<in> set (line_tokens line). t \<in> set COMMON_ENG_WORDS) \<longrightarrow>
      score (line_tokens line) = 1 \<and> is_eng line) \<and>
   (line_tokens line = [] \<longrightarrow> \<not> is_eng line) \<and>
   ((\<forall>c \<in> set line. \<not> is_ascii_letter c) \<longrightarrow> line_tokens line = [] \<and> \<not> is_eng line)"
proof -
  have a: "is_eng line \<longleftrightarrow> line_tokens line \<noteq> [] \<and> 2 / 10 \<le> score (line_tokens line)"
    by (simp add: is_eng_def Let_def)
  have b: "is_eng line \<longleftrightarrow>
      line_tokens line \<noteq> [] \<and> length (line_tokens line) \<le> 5 * match_count (line_tokens line)"
    using a score_ge_iff[of "line_tokens line"] by blast
  have c: "line_tokens line =
     filter (\<lambda>t. t \<noteq> []) (map (\<lambda>t. map lower (filter is_ascii_letter t)) (py_split_ws line))"
    by (simp add: line_tokens_def normalize_token_def[abs_def])
  have d: "\<forall>t \<in> set (line_tokens line). t \<noteq> [] \<and> (\<forall>c \<in> set t. 97 \<le> c \<and> c \<le> 122)"
    using normalize_token_chars by (auto simp: line_tokens_def)
  have e: "score (line_tokens line) = 1 \<and> is_eng line"
    if "line_tokens line \<noteq> []" "\<forall>t \<in> set (line_tokens line). t \<in> set COMMON_ENG_WORDS"
  proof -
    from that(2) have m: "match_count (line_tokens line) = length (line_tokens line)"
      by (rule match_count_all)
    from that(1) have "score (line_tokens line) = 1" by (simp add: score_def m)
    moreover have "is_eng line" using b that(1) m by simp
    ultimately show ?thesis by simp
  qed
  have f: "line_tokens line = [] \<longrightarrow> \<not> is_eng line" using a by simp
  have g: "(\<forall>c \<in> set line. \<not> is_ascii_letter c) \<longrightarrow> line_tokens line = [] \<and> \<not> is_eng line"
    using line_tokens_no_letters[of line] a by blast
  from a b c d e f g show ?thesis by blast
qed

theorem line_classifier_witness:
  "is_eng (str ''the court of imphal'') \<and> score (line_tokens (str ''the court of imphal'')) = 1 \<and>
   \<not> is_eng (str ''2024 - 17 / 3'') \<and> \<not> is_eng (str ''xyzabc qqrrss'')"
proof -
  have t: "line_tokens (str ''the court of imphal'') = [str ''the'', str ''court'', str ''of'', str ''imphal'']"
    by (simp add: line_tokens_def py_split_ws_def str_def py_isspace_def normalize_token_def is_ascii_letter_def lower_def)
  have "line_tokens (str ''the court of imphal'') \<noteq> [] \<and>
        (\<forall>t \<in> set (line_tokens (str ''the court of imphal'')). t \<in> set COMMON_ENG_WORDS)"
    unfolding t by (simp add: COMMON_ENG_WORDS_def)
  with line_classifier[of "str ''the court of imphal''"]
  have 1: "score (line_tokens (str ''the court of imphal'')) = 1 \<and> is_eng (str ''the court of imphal'')"
    by blast
  have "\<forall>c \<in> set (str ''2024 - 17 / 3''). \<not> is_ascii_letter c"
    by (simp add: str_def is_ascii_letter_def)
  with line_classifier[of "str ''2024 - 17 / 3''"] have 2: "\<not> is_eng (str ''2024 - 17 / 3'')" by blast
  have t3: "line_tokens (str ''xyzabc qqrrss'') = [str ''xyzabc'', str ''qqrrss'']"
    by (simp add: line_tokens_def py_split_ws_def str_def py_isspace_def normalize_token_def is_ascii_letter_def lower_def)
  have mc: "match_count (line_tokens (str ''xyzabc qqrrss'')) = 0"
    unfolding t3 by (simp add: match_count_def COMMON_ENG_WORDS_def str_def)
  have len: "length (line_tokens (str ''xyzabc qqrrss'')) = 2"
    unfolding t3 by simp
  from line_classifier[of "str ''xyzabc qqrrss''", THEN conjunct2, THEN conjunct1] mc len
  have 3: "\<not> is_eng (str ''xyzabc qqrrss'')" by simp
  from 1 2 3 show ?thesis by simp
qed

subsection \<open>Language resolution\<close>

lemma split_on_no_sep: "sep \<notin> set s \<Longrightarrow> split_on sep cur s = [cur @ s]"
  by (induction s arbitrary: cur) auto

lemma split_on_at_sep:
  "sep \<notin> set x \<Longrightarrow> split_on sep cur (x @ sep # rest) = (cur @ x) # split_on sep [] rest"
  by (induction x arbitrary: cur) auto

lemma split_on_not_Nil: "split_on sep cur s \<noteq> []"
  by (induction s arbitrary: cur) auto

lemma py_join_Cons: "ys \<noteq> [] \<Longrightarrow> py_join sep (x # ys) = x @ sep @ py_join sep ys"
  by (cases ys) simp_all

lemma join_split_on: "py_join [sep] (split_on sep cur s) = cur @ s"
  by (induction s arbitrary: cur) (simp_all add: py_join_Cons split_on_not_Nil)

lemma split_on_pieces_all: "sep \<notin> set cur \<Longrightarrow> \<forall>x \<in> set (split_on sep cur s). sep \<notin> set x"
proof (induction s arbitrary: cur)
  case Nil
  then show ?case by simp
next
  case (Cons c cs)
  show ?case
  proof (cases "c = sep")
    case True
    with Cons.IH[of "[]"] Cons.prems show ?thesis by simp
  next
    case False
    with Cons.IH[of "cur @ [c]"] Cons.prems show ?thesis by simp
  qed
qed

lemma split_on_pieces: "x \<in> set (split_on sep cur s) \<Longrightarrow> sep \<notin> set cur \<Longrightarrow> sep \<notin> set x"
  using split_on_pieces_all by blast

lemma split_on_join:
  "v \<noteq> [] \<Longrightarrow> \<forall>x \<in> set v. sep \<notin> set x \<Longrightarrow> split_on sep [] (py_join [sep] v) = v"
proof (induction "[sep]" v rule: py_join.induct)
  case 1
  then show ?case by simp
next
  case (2 x)
  then show ?case by (simp add: split_on_no_sep)
next
  case (3 x y ys)
  then show ?case by (simp add: split_on_at_sep)
qed

lemma str_plus: "str ''+'' = [of_char CHR ''+'']"
  by (simp add: str_def)

lemma valid_langs_pieces: "x \<in> set (valid_langs_of avail lang) \<Longrightarrow> of_char CHR ''+'' \<notin> set x"
  unfolding valid_langs_of_def py_split_def using split_on_pieces[of x _ "[]" lang] by auto

lemma ocr_image_direct:
  assumes "get_languages eng = Inr avail"
    and "\<not> (str ''mni'' \<in> set (valid_langs_of avail (effective_lang eng img lang)) \<and>
            str ''eng'' \<in> set (valid_langs_of avail (effective_lang eng img lang)))"
  shows "ocr_image eng img lang =
     (case final_lang_of avail (valid_langs_of avail (effective_lang eng img lang)) of
        None \<Rightarrow> None
      | Some fl \<Rightarrow> (case image_to_string eng img fl of Inl e \<Rightarrow> None | Inr t \<Rightarrow> Some t))"
  using assms
  by (auto simp: ocr_image_def ocr_image_body_def Let_def bind_def split: option.splits sum.splits)

lemma ocr_image_hybrid:
  assumes "get_languages eng = Inr avail"
    and "str ''mni'' \<in> set (valid_langs_of avail (effective_lang eng img lang))"
    and "str ''eng'' \<in> set (valid_langs_of avail (effective_lang eng img lang))"
    and "image_to_data eng img (str ''eng'') = Inr data"
  shows "ocr_image eng img lang =
     (case col_text data of
        None \<Rightarrow>
          (case image_to_string eng img
                  (py_join (str ''+'') (valid_langs_of avail (effective_lang eng img lang))) of
             Inl e \<Rightarrow> None | Inr t \<Rightarrow> Some t)
      | Some texts \<Rightarrow>
          (case bind (group_lines data (length texts))
                  (\<lambda>lines. hybrid_loop eng img lines (sort (map fst lines)) []) of
             Inl e \<Rightarrow> None | Inr t \<Rightarrow> Some t))"
proof -
  have v: "valid_langs_of avail (effective_lang eng img lang) \<noteq> []" using assms(2) by auto
  show ?thesis
    using assms v
    by (simp add: ocr_image_def ocr_image_body_def Let_def final_lang_of_def bind_def
        split: option.splits sum.splits)
qed

text \<open>
  Claim C6, as the code has it. For an explicit request (not \<open>"auto"\<close>) the requested codes
  are the pieces of the request between \<open>+\<close> signs (joining them with \<open>+\<close> gives the
  request back); the valid codes are those pieces that are installed, in request order. When
  there is one, the final code is the valid codes joined with \<open>+\<close> (splitting it gives
  the valid codes back). When no requested code is installed the final code is \<open>eng\<close> if
  that is installed, and otherwise an installed code if there is any. The final code is the
  code handed to \<open>image_to_string\<close> for the whole image unless both \<open>mni\<close> and \<open>eng\<close> are
  valid. When both are valid the engine segments the image with \<open>eng\<close> and re-recognizes
  lines with \<open>mni\<close>; the joined code is used only when the table has no text column.
\<close>

theorem language_resolver_explicit:
  assumes "lang \<noteq> str ''auto''"
  shows "effective_lang eng img lang = lang \<and>
    py_join (str ''+'') (py_split lang (of_char CHR ''+'')) = lang \<and>
    valid_langs_of avail lang =
      filter (\<lambda>l. l \<in> set avail) (py_split lang (of_char CHR ''+'')) \<and>
    (valid_langs_of avail lang \<noteq> [] \<longrightarrow>
       final_lang_of avail (valid_langs_of avail lang) =
         Some (py_join (str ''+'') (valid_langs_of avail lang)) \<and>
       py_split (py_join (str ''+'') (valid_langs_of avail lang)) (of_char CHR ''+'') =
         valid_langs_of avail lang) \<and>
    (valid_langs_of avail lang = [] \<and> str ''eng'' \<in> set avail \<longrightarrow>
       final_lang_of avail (valid_langs_of avail lang) = Some (str ''eng'')) \<and>
    (valid_langs_of avail lang = [] \<and> str ''eng'' \<notin> set avail \<and> avail \<noteq> [] \<longrightarrow>
       (\<exists>c \<in> set avail. final_lang_of avail (valid_langs_of avail lang) = Some c)) \<and>
    (get_languages eng = Inr avail \<and>
     \<not> (str ''mni'' \<in> set (valid_langs_of avail lang) \<and> str ''eng'' \<in> set (valid_langs_of avail lang)) \<longrightarrow>
       (\<forall>fl. final_lang_of avail (valid_langs_of avail lang) = Some fl \<longrightarrow>
          ocr_image eng img lang =
            (case image_to_string eng img fl of Inl e \<Rightarrow> None | Inr t \<Rightarrow> Some t))) \<and>
    (get_languages eng = Inr avail \<and>
     str ''mni'' \<in> set (valid_langs_of avail lang) \<and> str ''eng'' \<in> set (valid_langs_of avail lang) \<longrightarrow>
       (\<forall>data. image_to_data eng img (str ''eng'') = Inr data \<longrightarrow>
          ocr_image eng img lang =
            (case col_text data of
               None \<Rightarrow>
                 (case image_to_string eng img (py_join (str ''+'') (valid_langs_of avail lang)) of
                    Inl e \<Rightarrow> None | Inr t \<Rightarrow> Some t)
             | Some texts \<Rightarrow>
                 (case bind (group_lines data (length texts))
                         (\<lambda>lines. hybrid_loop eng img lines (sort (map fst lines)) []) of
                    Inl e \<Rightarrow> None | Inr t \<Rightarrow> Some t))))"
proof -
  have a: "effective_lang eng img lang = lang" using assms by (simp add: effective_lang_def)
  have b: "py_join (str ''+'') (py_split lang (of_char CHR ''+'')) = lang"
    by (simp add: str_plus py_split_def join_split_on)
  have c: "valid_langs_of avail lang =
      filter (\<lambda>l. l \<in> set avail) (py_split lang (of_char CHR ''+''))"
    by (simp add: valid_langs_of_def)
  have d: "final_lang_of avail (valid_langs_of avail lang) =
         Some (py_join (str ''+'') (valid_langs_of avail lang)) \<and>
       py_split (py_join (str ''+'') (valid_langs_of avail lang)) (of_char CHR ''+'') =
         valid_langs_of avail lang" if "valid_langs_of avail lang \<noteq> []"
    using that valid_langs_pieces[of _ avail lang]
    by (simp add: final_lang_of_def str_plus py_split_def split_on_join)
  have e: "valid_langs_of avail lang = [] \<and> str ''eng'' \<in> set avail \<longrightarrow>
       final_lang_of avail (valid_langs_of avail lang) = Some (str ''eng'')"
    by (simp add: final_lang_of_def)
  have f: "valid_langs_of avail lang = [] \<and> str ''eng'' \<notin> set avail \<and> avail \<noteq> [] \<longrightarrow>
       (\<exists>c \<in> set avail. final_lang_of avail (valid_langs_of avail lang) = Some c)"
    by (auto simp: final_lang_of_def)
  have g: "get_languages eng = Inr avail \<and>
     \<not> (str ''mni'' \<in> set (valid_langs_of avail lang) \<and> str ''eng'' \<in> set (valid_langs_of avail lang)) \<longrightarrow>
       (\<forall>fl. final_lang_of avail (valid_langs_of avail lang) = Some fl \<longrightarrow>
          ocr_image eng img lang =
            (case image_to_string eng img fl of Inl e \<Rightarrow> None | Inr t \<Rightarrow> Some t))"
    using ocr_image_direct[of eng avail img lang] unfolding a by auto
  have h: "(get_languages eng = Inr avail \<and>
     str ''mni'' \<in> set (valid_langs_of avail lang) \<and> str ''eng'' \<in> set (valid_langs_of avail lang) \<longrightarrow>
       (\<forall>data. image_to_data eng img (str ''eng'') = Inr data \<longrightarrow>
          ocr_image eng img lang =
            (case col_text data of
               None \<Rightarrow>
                 (case image_to_string eng img (py_join (str ''+'') (valid_langs_of avail lang)) of
                    Inl e \<Rightarrow> None | Inr t \<Rightarrow> Some t)
             | Some texts \<Rightarrow>
                 (case bind (group_lines data (length texts))
                         (\<lambda>lines. hybrid_loop eng img lines (sort (map fst lines)) []) of
                    Inl e \<Rightarrow> None | Inr t \<Rightarrow> Some t))))"
    using ocr_image_hybrid[of eng avail img lang] unfolding a by blast
  from a b c d e f g h show ?thesis by blast
qed

subsection \<open>The request \<open>auto\<close>\<close>

lemma script_lang_cases:
  "script_lang s = str ''eng'' \<or> script_lang s = str ''mni'' \<or> script_lang s = str ''hin'' \<or>
   script_lang s = str ''ben''"
  by (simp add: script_lang_def SCRIPT_LANG_MAP_def)

lemma split_script_lang: "py_split (script_lang s) (of_char CHR ''+'') = [script_lang s]"
  using script_lang_cases[of s]
  by (auto simp: py_split_def split_on_no_sep str_def)

lemma detect_script_upd [simp]:
  "detect_script (eng\<lparr>image_to_data := seg, crop := crp\<rparr>) img = detect_script eng img"
  by (simp add: detect_script_def)

text \<open>
  Claim C10. With the request \<open>"auto"\<close> the language is one of the four codes of the script
  table, a single requested code, so at most one code is valid and the hybrid condition
  (both \<open>mni\<close> and \<open>eng\<close> valid) is false. The result is that of one call of
  \<open>image_to_string\<close> on the whole image with the resolved code (which exists as soon as a
  language is installed), and it does not depend on \<open>image_to_data\<close> or \<open>crop\<close>, the
  calls of the per-line path.
\<close>

theorem auto_never_hybrid:
  "effective_lang eng img (str ''auto'') \<in> {str ''eng'', str ''mni'', str ''hin'', str ''ben''} \<and>
   py_split (effective_lang eng img (str ''auto'')) (of_char CHR ''+'') =
     [effective_lang eng img (str ''auto'')] \<and>
   length (valid_langs_of avail (effective_lang eng img (str ''auto''))) \<le> 1 \<and>
   \<not> (str ''mni'' \<in> set (valid_langs_of avail (effective_lang eng img (str ''auto''))) \<and>
      str ''eng'' \<in> set (valid_langs_of avail (effective_lang eng img (str ''auto'')))) \<and>
   (avail \<noteq> [] \<longrightarrow>
      final_lang_of avail (valid_langs_of avail (effective_lang eng img (str ''auto''))) \<noteq> None) \<and>
   ocr_image eng img (str ''auto'') =
     (case get_languages eng of
        Inl e \<Rightarrow> None
      | Inr langs \<Rightarrow>
          (case final_lang_of langs (valid_langs_of langs (effective_lang eng img (str ''auto''))) of
             None \<Rightarrow> None
           | Some fl \<Rightarrow> (case image_to_string eng img fl of Inl e \<Rightarrow> None | Inr t \<Rightarrow> Some t))) \<and>
   ocr_image (eng\<lparr>image_to_data := seg, crop := crp\<rparr>) img (str ''auto'') =
     ocr_image eng img (str ''auto'')"
proof -
  let ?l = "effective_lang eng img (str ''auto'')"
  have l: "?l = script_lang (detect_script eng img)" by (simp add: effective_lang_def)
  have a: "?l \<in> {str ''eng'', str ''mni'', str ''hin'', str ''ben''}"
    using script_lang_cases[of "detect_script eng img"] unfolding l by blast
  have b: "py_split ?l (of_char CHR ''+'') = [?l]" unfolding l by (rule split_script_lang)
  have c: "length (valid_langs_of langs ?l) \<le> 1" for langs
    unfolding valid_langs_of_def b by simp
  have ne: "str ''mni'' \<noteq> str ''eng''" by (simp add: str_def)
  have d: "\<not> (str ''mni'' \<in> set (valid_langs_of langs ?l) \<and> str ''eng'' \<in> set (valid_langs_of langs ?l))"
    for langs unfolding valid_langs_of_def b using ne by (auto split: if_splits)
  have e: "avail \<noteq> [] \<longrightarrow> final_lang_of avail (valid_langs_of avail ?l) \<noteq> None"
    by (simp add: final_lang_of_def)
  have f: "ocr_image eng img (str ''auto'') =
     (case get_languages eng of
        Inl e \<Rightarrow> None
      | Inr langs \<Rightarrow>
          (case final_lang_of langs (valid_langs_of langs ?l) of
             None \<Rightarrow> None
           | Some fl \<Rightarrow> (case image_to_string eng img fl of Inl e \<Rightarrow> None | Inr t \<Rightarrow> Some t)))"
  proof (cases "get_languages eng")
    case (Inl e)
    then show ?thesis by (simp add: ocr_image_def ocr_image_body_def)
  next
    case (Inr langs)
    from ocr_image_direct[OF Inr d[of langs]] Inr show ?thesis by simp
  qed
  have l': "effective_lang (eng\<lparr>image_to_data := seg, crop := crp\<rparr>) img (str ''auto'') = ?l"
    by (simp add: effective_lang_def)
  have g: "ocr_image (eng\<lparr>image_to_data := seg, crop := crp\<rparr>) img (str ''auto'') =
     ocr_image eng img (str ''auto'')"
  proof (cases "get_languages eng")
    case (Inl e)
    then show ?thesis by (simp add: ocr_image_def ocr_image_body_def)
  next
    case (Inr langs)
    have 1: "get_languages (eng\<lparr>image_to_data := seg, crop := crp\<rparr>) = Inr langs" using Inr by simp
    have 2: "\<not> (str ''mni'' \<in> set (valid_langs_of langs (effective_lang (eng\<lparr>image_to_data := seg, crop := crp\<rparr>) img (str ''auto''))) \<and>
            str ''eng'' \<in> set (valid_langs_of langs (effective_lang (eng\<lparr>image_to_data := seg, crop := crp\<rparr>) img (str ''auto''))))"
      unfolding l' by (rule d)
    show ?thesis
      unfolding ocr_image_direct[OF 1 2] ocr_image_direct[OF Inr d[of langs]] l'
      by (simp split: option.splits)
  qed
  from a b c[of avail] d[of avail] e f g show ?thesis by blast
qed

lemma example_osd_lines:
  "py_splitlines example_osd = [str ''Rotate: 0'', str ''Script: Meetei_Mayek'', str ''Script confidence: 2.50'']"
  by (simp add: py_splitlines_def example_osd_def str_def is_linebreak_def)

lemma example_detect: "detect_script (example_engine langs example_osd) img = str ''Meetei_Mayek''"
  by (simp add: detect_script_def example_engine_def example_osd_lines)
     (simp add: str_def py_split_def py_strip_def py_isspace_def)

theorem auto_never_hybrid_witness:
  "ocr_image (example_engine [str ''eng'', str ''mni''] example_osd) example_page (str ''auto'') =
     Some (str ''mni: text'') \<and>
   valid_langs_of [str ''eng'', str ''mni'']
     (effective_lang (example_engine [str ''eng'', str ''mni''] example_osd) example_page (str ''auto'')) =
     [str ''mni'']"
proof -
  let ?e = "example_engine [str ''eng'', str ''mni''] example_osd"
  have l: "effective_lang ?e example_page (str ''auto'') = str ''mni''"
    by (simp add: effective_lang_def example_detect script_lang_def SCRIPT_LANG_MAP_def)
       (simp add: str_def)
  have v: "valid_langs_of [str ''eng'', str ''mni''] (str ''mni'') = [str ''mni'']"
    by (simp add: valid_langs_of_def py_split_def str_def)
  have f: "final_lang_of [str ''eng'', str ''mni''] [str ''mni''] = Some (str ''mni'')"
    by (simp add: final_lang_of_def)
  note t = auto_never_hybrid[of ?e example_page "[str ''eng'', str ''mni'']",
      THEN conjunct2, THEN conjunct2, THEN conjunct2, THEN conjunct2, THEN conjunct2, THEN conjunct1]
  have "ocr_image ?e example_page (str ''auto'') = Some (str ''mni: text'')"
    unfolding t l by (simp add: example_engine_def v f) (simp add: str_def)
  with l v show ?thesis by simp
qed

subsection \<open>Script detection\<close>

lemma script_of_lines_none:
  "\<forall>l \<in> set ls. \<not> py_in (str ''Script'') l \<Longrightarrow> script_of_lines ls = str ''Latin''"
  by (induction ls) simp_all

lemma script_of_lines_first:
  "\<forall>l' \<in> set pre. \<not> py_in (str ''Script'') l' \<Longrightarrow> py_in (str ''Script'') l \<Longrightarrow>
   script_of_lines (pre @ l # post) = py_strip (last (py_split l (of_char CHR '':'')))"
  by (induction pre) simp_all

lemma py_in_prefix: "py_in p (p @ r)"
proof (cases "p @ r")
  case Nil
  then show ?thesis by simp
next
  case (Cons c cs)
  have "take (length p) (p @ r) = p" by simp
  then show ?thesis unfolding Cons by simp
qed

lemma script_field_value:
  assumes "of_char CHR '':'' \<notin> set v"
  shows "last (py_split (str ''Script:'' @ v) (of_char CHR '':'')) = v"
proof -
  have s: "str ''Script:'' = str ''Script'' @ [of_char CHR '':'']" by (simp add: str_def)
  have n: "of_char CHR '':'' \<notin> set (str ''Script'')" by (simp add: str_def)
  have "split_on (of_char CHR '':'') [] (str ''Script'' @ of_char CHR '':'' # v) =
        str ''Script'' # split_on (of_char CHR '':'') [] v"
    using split_on_at_sep[OF n, of "[]" v] by simp
  also have "split_on (of_char CHR '':'') [] v = [v]"
    using split_on_no_sep[OF assms, of "[]"] by simp
  finally show ?thesis by (simp add: py_split_def s)
qed

text \<open>
  Claim C8, as the code has it. Script detection always returns a label. It is \<open>Latin\<close>
  when the engine call raises and when no line of the report contains \<open>Script\<close>.
  Otherwise it is taken from the first line that contains \<open>Script\<close>: the text after
  that line's last colon (the whole line when it has none), stripped of surrounding
  whitespace; for a line \<open>Script: v\<close> that is the value \<open>v\<close>, stripped.
\<close>

theorem detect_script_result:
  "(\<forall>e. image_to_osd eng img = Inl e \<longrightarrow> detect_script eng img = str ''Latin'') \<and>
   (\<forall>osd. image_to_osd eng img = Inr osd \<and>
        (\<forall>l \<in> set (py_splitlines osd). \<not> py_in (str ''Script'') l) \<longrightarrow>
        detect_script eng img = str ''Latin'') \<and>
   (\<forall>osd pre l post. image_to_osd eng img = Inr osd \<and> py_splitlines osd = pre @ l # post \<and>
        (\<forall>l' \<in> set pre. \<not> py_in (str ''Script'') l') \<and> py_in (str ''Script'') l \<longrightarrow>
        detect_script eng img = py_strip (last (py_split l (of_char CHR '':'')))) \<and>
   (\<forall>osd pre v post. image_to_osd eng img = Inr osd \<and>
        py_splitlines osd = pre @ (str ''Script:'' @ v) # post \<and>
        (\<forall>l' \<in> set pre. \<not> py_in (str ''Script'') l') \<and> of_char CHR '':'' \<notin> set v \<longrightarrow>
        detect_script eng img = py_strip v)"
proof -
  have a: "detect_script eng img = str ''Latin''" if "image_to_osd eng img = Inl e" for e
    using that by (simp add: detect_script_def)
  have b: "detect_script eng img = str ''Latin''"
    if "image_to_osd eng img = Inr osd" "\<forall>l \<in> set (py_splitlines osd). \<not> py_in (str ''Script'') l"
    for osd using that by (simp add: detect_script_def script_of_lines_none)
  have c: "detect_script eng img = py_strip (last (py_split l (of_char CHR '':'')))"
    if "image_to_osd eng img = Inr osd" "py_splitlines osd = pre @ l # post"
       "\<forall>l' \<in> set pre. \<not> py_in (str ''Script'') l'" "py_in (str ''Script'') l"
    for osd pre l post
    using that script_of_lines_first[of pre l post] by (simp add: detect_script_def)
  have d: "detect_script eng img = py_strip v"
    if "image_to_osd eng img = Inr osd" "py_splitlines osd = pre @ (str ''Script:'' @ v) # post"
       "\<forall>l' \<in> set pre. \<not> py_in (str ''Script'') l'" "of_char CHR '':'' \<notin> set v"
    for osd pre v post
  proof -
    have "str ''Script:'' @ v = str ''Script'' @ (of_char CHR '':'' # v)" by (simp add: str_def)
    then have "py_in (str ''Script'') (str ''Script:'' @ v)" using py_in_prefix by metis
    from c[OF that(1) that(2) that(3) this] script_field_value[OF that(4)] show ?thesis by simp
  qed
  from a b c d show ?thesis by blast
qed

theorem detect_script_result_witness:
  "detect_script (example_engine [] example_osd) example_page = str ''Meetei_Mayek'' \<and>
   detect_script (example_engine [] (str ''Rotate: 0'')) example_page = str ''Latin''"
proof -
  let ?e = "example_engine [] example_osd"
  have o: "image_to_osd ?e example_page = Inr example_osd" by (simp add: example_engine_def)
  have l: "py_splitlines example_osd =
      [str ''Rotate: 0''] @ (str ''Script:'' @ str '' Meetei_Mayek'') # [str ''Script confidence: 2.50'']"
    by (simp add: example_osd_lines) (simp add: str_def)
  have p: "\<forall>l' \<in> set [str ''Rotate: 0'']. \<not> py_in (str ''Script'') l'" by (simp add: str_def)
  have v: "of_char CHR '':'' \<notin> set (str '' Meetei_Mayek'')" by (simp add: str_def)
  have s: "py_strip (str '' Meetei_Mayek'') = str ''Meetei_Mayek''"
    by (simp add: py_strip_def str_def py_isspace_def)
  from detect_script_result[of ?e example_page, THEN conjunct2, THEN conjunct2, THEN conjunct2] o l p v
  have "detect_script ?e example_page = py_strip (str '' Meetei_Mayek'')" by blast
  then have 1: "detect_script ?e example_page = str ''Meetei_Mayek''" by (simp add: s)
  let ?f = "example_engine [] (str ''Rotate: 0'')"
  have o2: "image_to_osd ?f example_page = Inr (str ''Rotate: 0'')" by (simp add: example_engine_def)
  have n2: "\<forall>l \<in> set (py_splitlines (str ''Rotate: 0'')). \<not> py_in (str ''Script'') l"
    by (simp add: py_splitlines_def str_def is_linebreak_def)
  from detect_script_result[of ?f example_page, THEN conjunct2, THEN conjunct1] o2 n2
  have 2: "detect_script ?f example_page = str ''Latin''" by blast
  from 1 2 show ?thesis by simp
qed

text \<open>
  Claim C8 as stated fails on a report whose \<open>Script\<close> line is missing while its
  \<open>Script confidence\<close> line is there: the label returned is the confidence, not
  \<open>Latin\<close>.
\<close>

theorem detect_script_missing_field_counterexample:
  "image_to_osd (example_engine [] osd_without_script) example_page = Inr osd_without_script \<and>
   py_splitlines osd_without_script = [str ''Rotate: 0'', str ''Script confidence: 2.50''] \<and>
   detect_script (example_engine [] osd_without_script) example_page = str ''2.50'' \<and>
   detect_script (example_engine [] osd_without_script) example_page \<noteq> str ''Latin''"
proof -
  have l: "py_splitlines osd_without_script = [str ''Rotate: 0'', str ''Script confidence: 2.50'']"
    by (simp add: py_splitlines_def osd_without_script_def str_def is_linebreak_def)
  have d: "detect_script (example_engine [] osd_without_script) example_page = str ''2.50''"
    by (simp add: detect_script_def example_engine_def l)
       (simp add: str_def py_split_def py_strip_def py_isspace_def)
  have "str ''2.50'' \<noteq> str ''Latin''" by (simp add: str_def)
  with l d show ?thesis by (simp add: example_engine_def)
qed

subsection \<open>The pages of a document\<close>

lemma pages_loop_length: "length (pages_loop eng lum lang k imgs) = length imgs"
  by (induction imgs arbitrary: k) simp_all

lemma pages_loop_nth:
  "i < length imgs \<Longrightarrow> pages_loop eng lum lang k imgs ! i = make_page eng lum lang (k + i) (imgs ! i)"
proof (induction imgs arbitrary: k i)
  case Nil
  then show ?case by simp
next
  case (Cons img rest)
  show ?case
  proof (cases i)
    case 0
    then show ?thesis by simp
  next
    case (Suc j)
    with Cons.prems have "j < length rest" by simp
    from Cons.IH[OF this, of "Suc k"] Suc show ?thesis by simp
  qed
qed

lemma make_page_number: "page_number (make_page eng lum lang i img) = int i + 1"
  by (simp add: make_page_def Let_def)

lemma make_page_failed:
  "ocr_image eng (preprocess_image lum img) (if lang = [] then str ''auto'' else lang) = None \<Longrightarrow>
   make_page eng lum lang i img = \<lparr>page_number = int i + 1, page_text = [], page_status = ocr_failed\<rparr>"
  by (simp add: make_page_def Let_def truthy_def)

lemma extract_Some:
  assumes "convert_from_path pdf_path = Inr images" and "images \<noteq> []"
  shows "extract_text_from_pdf eng convert_from_path lum pdf_path lang did name =
     Inr (Some \<lparr>doc_id = did, source_file = name, language = lang,
                page_count = int (length images), pages = pages_loop eng lum lang 0 images\<rparr>)"
  using assms by (simp add: extract_text_from_pdf_def pdf_to_images_def)

lemma extract_None:
  assumes "convert_from_path pdf_path = Inr []"
  shows "extract_text_from_pdf eng convert_from_path lum pdf_path lang did name = Inr None"
  using assms by (simp add: extract_text_from_pdf_def pdf_to_images_def)

text \<open>
  Claim C4. Let the renderer return a list of images. Every document that the extraction
  returns has one page per image, in the order of the images: page \<open>i\<close> (from 0) is the
  page made from image \<open>i\<close> and has number \<open>i + 1\<close>, and \<open>page_count\<close> is the number of
  pages. A page whose recognition returns \<open>None\<close> (every exception inside \<open>ocr_image\<close> ends
  so) is still there, with empty text and status \<open>ocr_failed\<close>. A document is returned
  whenever there is at least one image.
\<close>

theorem extract_pages_match_images:
  assumes "convert_from_path pdf_path = Inr images"
  shows "(images \<noteq> [] \<longrightarrow>
      (\<exists>doc. extract_text_from_pdf eng convert_from_path lum pdf_path lang did name = Inr (Some doc))) \<and>
    (\<forall>doc. extract_text_from_pdf eng convert_from_path lum pdf_path lang did name = Inr (Some doc) \<longrightarrow>
       length (pages doc) = length images \<and>
       page_count doc = int (length (pages doc)) \<and>
       (\<forall>i < length (pages doc). page_number (pages doc ! i) = int i + 1) \<and>
       (\<forall>i < length images. pages doc ! i = make_page eng lum lang i (images ! i)) \<and>
       (\<forall>i < length images.
          ocr_image eng (preprocess_image lum (images ! i)) (if lang = [] then str ''auto'' else lang) = None \<longrightarrow>
          pages doc ! i = \<lparr>page_number = int i + 1, page_text = [], page_status = ocr_failed\<rparr>))"
proof (cases "images = []")
  case True
  with assms have "extract_text_from_pdf eng convert_from_path lum pdf_path lang did name = Inr None"
    by (simp add: extract_None)
  with True show ?thesis by simp
next
  case False
  let ?doc = "\<lparr>doc_id = did, source_file = name, language = lang,
                page_count = int (length images), pages = pages_loop eng lum lang 0 images\<rparr>"
  have e: "extract_text_from_pdf eng convert_from_path lum pdf_path lang did name = Inr (Some ?doc)"
    using assms False by (rule extract_Some)
  have l: "length (pages ?doc) = length images" by (simp add: pages_loop_length)
  have n: "\<forall>i < length images. pages ?doc ! i = make_page eng lum lang i (images ! i)"
    by (simp add: pages_loop_nth)
  have p: "\<forall>i < length (pages ?doc). page_number (pages ?doc ! i) = int i + 1"
    by (simp add: pages_loop_length pages_loop_nth make_page_number)
  have f: "\<forall>i < length images.
        ocr_image eng (preprocess_image lum (images ! i)) (if lang = [] then str ''auto'' else lang) = None \<longrightarrow>
        pages ?doc ! i = \<lparr>page_number = int i + 1, page_text = [], page_status = ocr_failed\<rparr>"
  proof (intro allI impI)
    fix i
    assume i: "i < length images"
      and h: "ocr_image eng (preprocess_image lum (images ! i)) (if lang = [] then str ''auto'' else lang) = None"
    from make_page_failed[OF h, of i] i
    show "pages ?doc ! i = \<lparr>page_number = int i + 1, page_text = [], page_status = ocr_failed\<rparr>"
      by (simp add: pages_loop_nth)
  qed
  have c: "page_count ?doc = int (length (pages ?doc))" by (simp add: pages_loop_length)
  have all: "length (pages doc) = length images \<and>
       page_count doc = int (length (pages doc)) \<and>
       (\<forall>i < length (pages doc). page_number (pages doc ! i) = int i + 1) \<and>
       (\<forall>i < length images. pages doc ! i = make_page eng lum lang i (images ! i)) \<and>
       (\<forall>i < length images.
          ocr_image eng (preprocess_image lum (images ! i)) (if lang = [] then str ''auto'' else lang) = None \<longrightarrow>
          pages doc ! i = \<lparr>page_number = int i + 1, page_text = [], page_status = ocr_failed\<rparr>)"
    if "extract_text_from_pdf eng convert_from_path lum pdf_path lang did name = Inr (Some doc)" for doc
  proof -
    from that e have "doc = ?doc" by simp
    with l c p n f show ?thesis by blast
  qed
  from e all show ?thesis by blast
qed

lemma flaky_page_1:
  "make_page flaky_engine rgb_lum (str ''eng'') 0 example_raster =
     \<lparr>page_number = 1, page_text = str ''the court'', page_status = success\<rparr>"
  by (simp add: make_page_def Let_def ocr_image_def ocr_image_body_def flaky_engine_def
      example_engine_def valid_langs_of_def effective_lang_def final_lang_of_def py_split_def
      preprocess_image_def point_def convert_L_def example_raster_def rgb_lum_def truthy_def str_def)

lemma flaky_page_2:
  "make_page flaky_engine rgb_lum (str ''eng'') 1 blank_raster =
     \<lparr>page_number = 2, page_text = [], page_status = ocr_failed\<rparr>"
  by (simp add: make_page_def Let_def ocr_image_def ocr_image_body_def flaky_engine_def
      example_engine_def valid_langs_of_def effective_lang_def final_lang_of_def py_split_def
      preprocess_image_def point_def convert_L_def blank_raster_def rgb_lum_def truthy_def str_def)

theorem extract_pages_match_images_witness:
  "example_pdf (str ''a.pdf'') = Inr [example_raster, blank_raster] \<and>
   (\<exists>doc. extract_text_from_pdf flaky_engine example_pdf rgb_lum (str ''a.pdf'') (str ''eng'')
            (str ''d1'') (str ''a.pdf'') = Inr (Some doc) \<and>
      page_count doc = 2 \<and>
      pages doc = [\<lparr>page_number = 1, page_text = str ''the court'', page_status = success\<rparr>,
                   \<lparr>page_number = 2, page_text = [], page_status = ocr_failed\<rparr>])"
proof -
  have c: "example_pdf (str ''a.pdf'') = Inr [example_raster, blank_raster]"
    by (simp add: example_pdf_def)
  have n: "[example_raster, blank_raster] \<noteq> []" by simp
  note t = extract_pages_match_images[where convert_from_path = example_pdf and pdf_path = "str ''a.pdf''"
      and images = "[example_raster, blank_raster]" and eng = flaky_engine and lum = rgb_lum
      and lang = "str ''eng''" and did = "str ''d1''" and name = "str ''a.pdf''", OF c]
  from t[THEN conjunct1] n
  obtain doc where e: "extract_text_from_pdf flaky_engine example_pdf rgb_lum (str ''a.pdf'') (str ''eng'')
            (str ''d1'') (str ''a.pdf'') = Inr (Some doc)" by blast
  from t[THEN conjunct2] e
  have l: "length (pages doc) = length [example_raster, blank_raster]"
    and pc: "page_count doc = int (length (pages doc))"
    and m: "\<forall>i < length [example_raster, blank_raster].
              pages doc ! i = make_page flaky_engine rgb_lum (str ''eng'') i ([example_raster, blank_raster] ! i)"
    by blast+
  from m have p0: "pages doc ! 0 = make_page flaky_engine rgb_lum (str ''eng'') 0 example_raster"
    by simp
  from m have p1: "pages doc ! 1 = make_page flaky_engine rgb_lum (str ''eng'') 1 blank_raster"
    by simp
  from l have l2: "length (pages doc) = 2" by simp
  then obtain a b where ab: "pages doc = [a, b]"
    by (cases "pages doc"; cases "tl (pages doc)") auto
  with p0 p1 flaky_page_1 flaky_page_2
  have "pages doc = [\<lparr>page_number = 1, page_text = str ''the court'', page_status = success\<rparr>,
                   \<lparr>page_number = 2, page_text = [], page_status = ocr_failed\<rparr>]" by simp
  with e pc l2 c show ?thesis by auto
qed

subsection \<open>No installed language\<close>

lemma ocr_image_no_language: "get_languages eng = Inr [] \<Longrightarrow> ocr_image eng img lang = None"
  by (simp add: ocr_image_def ocr_image_body_def valid_langs_of_def final_lang_of_def)

text \<open>
  Claim C2, as the code has it. When the engine reports no installed language,
  \<open>ocr_image\<close> returns \<open>None\<close> for every page; the extraction does not fail: for a
  non-empty list of images it returns a document with one page per image, each with empty
  text and status \<open>ocr_failed\<close>.
\<close>

theorem no_language_pages_fail:
  assumes "get_languages eng = Inr []"
  shows "ocr_image eng img lang = None \<and>
    (\<forall>images. convert_from_path pdf_path = Inr images \<and> images \<noteq> [] \<longrightarrow>
       (\<exists>doc. extract_text_from_pdf eng convert_from_path lum pdf_path lang did name = Inr (Some doc) \<and>
          length (pages doc) = length images \<and> page_count doc = int (length images) \<and>
          (\<forall>i < length images.
             pages doc ! i = \<lparr>page_number = int i + 1, page_text = [], page_status = ocr_failed\<rparr>)))"
proof -
  have a: "ocr_image eng img' lang' = None" for img' lang'
    using assms by (rule ocr_image_no_language)
  have b: "\<exists>doc. extract_text_from_pdf eng convert_from_path lum pdf_path lang did name = Inr (Some doc) \<and>
          length (pages doc) = length images \<and> page_count doc = int (length images) \<and>
          (\<forall>i < length images.
             pages doc ! i = \<lparr>page_number = int i + 1, page_text = [], page_status = ocr_failed\<rparr>)"
    if c: "convert_from_path pdf_path = Inr images" and n: "images \<noteq> []" for images
  proof -
    let ?doc = "\<lparr>doc_id = did, source_file = name, language = lang,
                page_count = int (length images), pages = pages_loop eng lum lang 0 images\<rparr>"
    have e: "extract_text_from_pdf eng convert_from_path lum pdf_path lang did name = Inr (Some ?doc)"
      using c n by (rule extract_Some)
    have "pages ?doc ! i = \<lparr>page_number = int i + 1, page_text = [], page_status = ocr_failed\<rparr>"
      if "i < length images" for i
      using that make_page_failed[where eng = eng and lum = lum and img = "images ! i" and lang = lang and i = i, OF a] by (simp add: pages_loop_nth)
    with e show ?thesis by (auto simp: pages_loop_length)
  qed
  from a b show ?thesis by blast
qed

theorem no_language_pages_fail_witness:
  "get_languages (example_engine [] example_osd) = Inr [] \<and>
   ocr_image (example_engine [] example_osd) example_page (str ''eng'') = None \<and>
   (\<exists>doc. extract_text_from_pdf (example_engine [] example_osd) example_pdf rgb_lum (str ''a.pdf'')
            (str ''eng'') (str ''d1'') (str ''a.pdf'') = Inr (Some doc) \<and>
      pages doc ! 0 = \<lparr>page_number = 1, page_text = [], page_status = ocr_failed\<rparr> \<and>
      pages doc ! 1 = \<lparr>page_number = 2, page_text = [], page_status = ocr_failed\<rparr>)"
proof -
  have g: "get_languages (example_engine [] example_osd) = Inr []" by (simp add: example_engine_def)
  have c: "example_pdf (str ''a.pdf'') = Inr [example_raster, blank_raster] \<and> [example_raster, blank_raster] \<noteq> []"
    by (simp add: example_pdf_def)
  note t = no_language_pages_fail[OF g, where img = example_page and lang = "str ''eng''"
      and convert_from_path = example_pdf and pdf_path = "str ''a.pdf''" and lum = rgb_lum
      and did = "str ''d1''" and name = "str ''a.pdf''"]
  from t have 1: "ocr_image (example_engine [] example_osd) example_page (str ''eng'') = None" by blast
  from t c obtain doc where e: "extract_text_from_pdf (example_engine [] example_osd) example_pdf rgb_lum (str ''a.pdf'')
            (str ''eng'') (str ''d1'') (str ''a.pdf'') = Inr (Some doc)"
    and p: "\<forall>i < length [example_raster, blank_raster].
             pages doc ! i = \<lparr>page_number = int i + 1, page_text = [], page_status = ocr_failed\<rparr>"
    by blast
  from p have "pages doc ! 0 = \<lparr>page_number = 1, page_text = [], page_status = ocr_failed\<rparr>" by simp
  moreover from p have "pages doc ! 1 = \<lparr>page_number = 2, page_text = [], page_status = ocr_failed\<rparr>" by simp
  ultimately show ?thesis using g 1 e by blast
qed

text \<open>
  Claim C2 as stated fails: with no installed language the extraction of a two-page source
  returns a document, with a status for each page.
\<close>

theorem no_language_document_counterexample:
  "get_languages (example_engine [] example_osd) = Inr [] \<and>
   extract_text_from_pdf (example_engine [] example_osd) example_pdf rgb_lum (str ''a.pdf'')
     (str ''eng'') (str ''d1'') (str ''a.pdf'') =
   Inr (Some \<lparr>doc_id = str ''d1'', source_file = str ''a.pdf'', language = str ''eng'', page_count = 2,
              pages = [\<lparr>page_number = 1, page_text = [], page_status = ocr_failed\<rparr>,
                       \<lparr>page_number = 2, page_text = [], page_status = ocr_failed\<rparr>]\<rparr>)"
proof -
  have g: "get_languages (example_engine [] example_osd) = Inr []" by (simp add: example_engine_def)
  have o: "ocr_image (example_engine [] example_osd) img lang = None" for img lang
    using g by (rule ocr_image_no_language)
  show ?thesis
    by (simp add: g extract_text_from_pdf_def pdf_to_images_def example_pdf_def make_page_def o truthy_def)
qed

subsection \<open>A failing re-recognition\<close>

lemma hybrid_loop_fails:
  assumes "map_of lines key = Some l_data"
    and "py_strip (py_join (str '' '') (l_text l_data)) \<noteq> []"
    and "\<not> is_eng (py_strip (py_join (str '' '') (l_text l_data)))"
    and "reocr_line eng img l_data = Inl e"
  shows "key \<in> set keys \<Longrightarrow> \<exists>e'. hybrid_loop eng img lines keys final_text = Inl e'"
proof (induction keys arbitrary: final_text)
  case Nil
  then show ?case by simp
next
  case (Cons k keys)
  show ?case
  proof (cases "k = key")
    case True
    with assms show ?thesis by (simp add: Let_def)
  next
    case False
    with Cons.prems have "key \<in> set keys" by simp
    from Cons.IH[OF this] show ?thesis
      by (auto simp: Let_def split: option.splits sum.splits)
  qed
qed

lemma map_of_key_in_sorted: "map_of lines key = Some l_data \<Longrightarrow> key \<in> set (sort (map fst lines))"
  by (auto dest: map_of_SomeD intro: rev_image_eqI)

lemma reocr_line_fails:
  "crop_box img l_data = Inr box \<Longrightarrow> crop eng img box = Inr cropped \<Longrightarrow>
   image_to_string eng cropped (str ''mni'') = Inl e \<Longrightarrow> reocr_line eng img l_data = Inl e"
  by (simp add: reocr_line_def)

text \<open>
  Claim C1, as the code has it. In hybrid mode, when the re-recognition call for a
  not-primary line raises, the exception leaves the loop and is caught by the handler of
  \<open>ocr_image\<close>, which returns \<open>None\<close>: no text is assembled for the page, and the page
  made from that image has empty text and status \<open>ocr_failed\<close>.
\<close>

theorem reocr_failure_fails_page:
  assumes "get_languages eng = Inr avail"
    and "str ''mni'' \<in> set (valid_langs_of avail (effective_lang eng img lang))"
    and "str ''eng'' \<in> set (valid_langs_of avail (effective_lang eng img lang))"
    and "image_to_data eng img (str ''eng'') = Inr data"
    and "col_text data = Some texts"
    and "group_lines data (length texts) = Inr lines"
    and "map_of lines key = Some l_data"
    and "py_strip (py_join (str '' '') (l_text l_data)) \<noteq> []"
    and "\<not> is_eng (py_strip (py_join (str '' '') (l_text l_data)))"
    and "crop_box img l_data = Inr box"
    and "crop eng img box = Inr cropped"
    and "image_to_string eng cropped (str ''mni'') = Inl e"
  shows "ocr_image eng img lang = None \<and>
    (\<forall>lum raster l i. preprocess_image lum raster = img \<and> (if l = [] then str ''auto'' else l) = lang \<longrightarrow>
       make_page eng lum l i raster =
         \<lparr>page_number = int i + 1, page_text = [], page_status = ocr_failed\<rparr>)"
proof -
  have r: "reocr_line eng img l_data = Inl e"
    using assms(10-12) by (rule reocr_line_fails)
  have k: "key \<in> set (sort (map fst lines))"
    using assms(7) by (rule map_of_key_in_sorted)
  from hybrid_loop_fails[OF assms(7-9) r k, of "[]"]
  obtain e' where h: "hybrid_loop eng img lines (sort (map fst lines)) [] = Inl e'" by blast
  have v: "valid_langs_of avail (effective_lang eng img lang) \<noteq> []" using assms(2) by auto
  have o: "ocr_image eng img lang = None"
    using assms(1-6) h v
    by (simp add: ocr_image_def ocr_image_body_def Let_def final_lang_of_def)
  have "make_page eng lum l i raster =
         \<lparr>page_number = int i + 1, page_text = [], page_status = ocr_failed\<rparr>"
    if "preprocess_image lum raster = img" "(if l = [] then str ''auto'' else l) = lang"
    for lum :: "'a \<Rightarrow> nat" and raster l i
    using that o make_page_failed[where eng = eng and lum = lum and img = raster and lang = l and i = i]
    by simp
  with o show ?thesis by blast
qed

lemma mni_failing_engine_simps:
  "get_languages mni_failing_engine = Inr [str ''eng'', str ''mni'']"
  "image_to_data mni_failing_engine img lang = Inr example_data"
  "crop mni_failing_engine img (l, t, r, b) =
     Inr \<lparr>width = r - l, height = b - t, pixels = replicate (nat ((r - l) * (b - t))) 255\<rparr>"
  "image_to_string mni_failing_engine img (str ''mni'') = Inl EngineError"
  by (simp_all add: mni_failing_engine_def example_engine_def)

lemma example_valid_langs:
  "valid_langs_of [str ''eng'', str ''mni''] (effective_lang mni_failing_engine img (str ''mni+eng'')) =
     [str ''mni'', str ''eng'']"
  by (simp add: effective_lang_def valid_langs_of_def py_split_def str_def)

lemma example_line_text:
  "py_strip (py_join (str '' '') (l_text example_line)) = str ''xyzabc qqrrss''"
  by (simp add: example_line_def py_strip_def str_def py_isspace_def)

lemma example_line_not_eng: "\<not> is_eng (str ''xyzabc qqrrss'')"
  by (simp add: is_eng_def line_tokens_def py_split_ws_def str_def py_isspace_def
      normalize_token_def is_ascii_letter_def lower_def score_def match_count_def
      COMMON_ENG_WORDS_def)

lemma example_line_text_nonempty: "str ''xyzabc qqrrss'' \<noteq> []"
  by (simp add: str_def)

lemma example_crop_box: "crop_box example_page example_line = Inr (0, 0, 12, 4)"
  by (simp add: crop_box_def py_min_def py_max_def example_line_def example_page_def padding_def)

theorem reocr_failure_fails_page_witness:
  "ocr_image mni_failing_engine example_page (str ''mni+eng'') = None"
proof -
  have t: "col_text example_data = Some [[], str ''xyzabc'', str ''qqrrss'']"
    by (simp add: example_data_def)
  have g: "group_lines example_data (length [[], str ''xyzabc'', str ''qqrrss'']) =
      Inr [((1, 1, 1), example_line)]"
    using example_group_lines by (simp add: numeral_3_eq_3)
  have m: "map_of [((1, 1, 1), example_line)] (1, 1, 1) = Some example_line" by simp
  have n: "py_strip (py_join (str '' '') (l_text example_line)) \<noteq> []"
    by (simp add: example_line_text example_line_text_nonempty)
  have ne: "\<not> is_eng (py_strip (py_join (str '' '') (l_text example_line)))"
    by (simp add: example_line_text example_line_not_eng)
  have v1: "str ''mni'' \<in> set (valid_langs_of [str ''eng'', str ''mni'']
              (effective_lang mni_failing_engine example_page (str ''mni+eng'')))"
    by (simp add: example_valid_langs)
  have v2: "str ''eng'' \<in> set (valid_langs_of [str ''eng'', str ''mni'']
              (effective_lang mni_failing_engine example_page (str ''mni+eng'')))"
    by (simp add: example_valid_langs)
  from reocr_failure_fails_page[OF mni_failing_engine_simps(1) v1 v2 mni_failing_engine_simps(2) t g m n ne
      example_crop_box mni_failing_engine_simps(3) mni_failing_engine_simps(4)]
  show ?thesis by blast
qed

text \<open>
  Claim C1 as stated fails: on a page of one line that is not primary, with an engine that
  raises for the language \<open>mni\<close> only, segmentation succeeds, the re-recognition of the
  line raises, and the whole page is reported as failed.
\<close>

theorem reocr_failure_counterexample:
  "image_to_data mni_failing_engine example_page (str ''eng'') = Inr example_data \<and>
   group_lines example_data 3 = Inr [((1, 1, 1), example_line)] \<and>
   reocr_line mni_failing_engine example_page example_line = Inl EngineError \<and>
   ocr_image mni_failing_engine example_page (str ''mni+eng'') = None \<and>
   make_page mni_failing_engine (\<lambda>p. p) (str ''mni+eng'') 0 example_page =
     \<lparr>page_number = 1, page_text = [], page_status = ocr_failed\<rparr>"
proof -
  have r: "reocr_line mni_failing_engine example_page example_line = Inl EngineError"
    by (simp add: reocr_line_def example_crop_box mni_failing_engine_simps)
  have t: "col_text example_data = Some [[], str ''xyzabc'', str ''qqrrss'']"
    by (simp add: example_data_def)
  have g: "group_lines example_data (Suc (Suc (Suc 0))) = Inr [((1, 1, 1), example_line)]"
    using example_group_lines by (simp add: numeral_3_eq_3)
  have b: "ocr_image_body mni_failing_engine example_page (str ''mni+eng'') = Inl EngineError"
    by (simp add: ocr_image_body_def mni_failing_engine_simps example_valid_langs
        final_lang_of_def t g Let_def example_line_text example_line_text_nonempty
        example_line_not_eng r)
  have o: "ocr_image mni_failing_engine img (str ''mni+eng'') = None" if "img = example_page" for img
    unfolding that by (simp add: ocr_image_def b)
  have p: "preprocess_image (\<lambda>p. p) example_page = example_page"
    by (simp add: preprocess_image_def point_def convert_L_def example_page_def)
  have mp: "make_page mni_failing_engine (\<lambda>p. p) (str ''mni+eng'') 0 example_page =
     \<lparr>page_number = 1, page_text = [], page_status = ocr_failed\<rparr>"
    using o[OF p] by (simp add: make_page_def Let_def truthy_def str_def)
  from mni_failing_engine_simps(2) example_group_lines r o mp show ?thesis by blast
qed

subsection \<open>The code handed to the engine\<close>

lemma example_engine_simps:
  "get_languages (example_engine langs osd) = Inr langs"
  "image_to_data (example_engine langs osd) img lang = Inr example_data"
  "crop (example_engine langs osd) img (l, t, r, b) =
     Inr \<lparr>width = r - l, height = b - t, pixels = replicate (nat ((r - l) * (b - t))) 255\<rparr>"
  "image_to_string (example_engine langs osd) img lang = Inr (lang @ str '': text'')"
  by (simp_all add: example_engine_def)

lemma joined_code_failing_engine_simps:
  "get_languages joined_code_failing_engine = Inr [str ''eng'', str ''mni'']"
  "image_to_data joined_code_failing_engine img lang = Inr example_data"
  "crop joined_code_failing_engine img (l, t, r, b) =
     Inr \<lparr>width = r - l, height = b - t, pixels = replicate (nat ((r - l) * (b - t))) 255\<rparr>"
  "image_to_string joined_code_failing_engine img (str ''mni+eng'') = Inl EngineError"
  "image_to_string joined_code_failing_engine img (str ''mni'') = Inr (str ''mni: text'')"
  by (simp_all add: joined_code_failing_engine_def example_engine_def) (simp_all add: str_def)

lemma joined_valid_langs:
  "valid_langs_of [str ''eng'', str ''mni''] (effective_lang joined_code_failing_engine img (str ''mni+eng'')) =
     [str ''mni'', str ''eng'']"
  by (simp add: effective_lang_def valid_langs_of_def py_split_def str_def)

lemma strip_mni_text: "py_strip (str ''mni: text'') = str ''mni: text''"
  by (simp add: py_strip_def str_def py_isspace_def)

lemma mni_text: "str ''mni'' @ str '': text'' = str ''mni: text''"
  by (simp add: str_def)

lemma example_hybrid_loop:
  "hybrid_loop (example_engine langs osd) example_page [((1, 1, 1), example_line)] [(1, 1, 1)] [] =
     Inr (str ''mni: text'' @ newline)"
proof -
  have r: "reocr_line (example_engine langs osd) example_page example_line = Inr (str ''mni: text'')"
    by (simp add: reocr_line_def example_crop_box example_engine_simps mni_text strip_mni_text)
  show ?thesis
    by (simp add: Let_def example_line_text example_line_text_nonempty example_line_not_eng r)
qed

theorem language_resolver_explicit_witness:
  "valid_langs_of [str ''eng'', str ''mni''] (str ''mni+xyz+eng'') = [str ''mni'', str ''eng''] \<and>
   final_lang_of [str ''eng'', str ''mni''] (valid_langs_of [str ''eng'', str ''mni''] (str ''mni+xyz+eng'')) =
     Some (str ''mni+eng'') \<and>
   ocr_image (example_engine [str ''eng'', str ''mni''] example_osd) example_page (str ''mni+xyz+eng'') =
     Some (str ''mni: text'' @ newline) \<and>
   valid_langs_of [str ''eng'', str ''hin'', str ''mni''] (str ''hin+eng'') = [str ''hin'', str ''eng''] \<and>
   ocr_image (example_engine [str ''eng'', str ''hin'', str ''mni''] example_osd) example_page (str ''hin+eng'') =
     Some (str ''hin+eng: text'') \<and>
   valid_langs_of [str ''eng''] (str ''xyz'') = [] \<and>
   ocr_image (example_engine [str ''eng''] example_osd) example_page (str ''xyz'') = Some (str ''eng: text'')"
proof -
  have n1: "str ''mni+xyz+eng'' \<noteq> str ''auto''" by (simp add: str_def)
  have v1: "valid_langs_of [str ''eng'', str ''mni''] (str ''mni+xyz+eng'') = [str ''mni'', str ''eng'']"
    by (simp add: valid_langs_of_def py_split_def str_def)
  have j1: "py_join (str ''+'') [str ''mni'', str ''eng''] = str ''mni+eng''"
    by (simp add: str_def)
  note t1 = language_resolver_explicit[OF n1, of "example_engine [str ''eng'', str ''mni''] example_osd"
      example_page "[str ''eng'', str ''mni'']"]
  from t1[THEN conjunct2, THEN conjunct2, THEN conjunct2, THEN conjunct1] v1 j1
  have f1: "final_lang_of [str ''eng'', str ''mni''] (valid_langs_of [str ''eng'', str ''mni''] (str ''mni+xyz+eng'')) =
     Some (str ''mni+eng'')" by simp
  have m1: "str ''mni'' \<in> set (valid_langs_of [str ''eng'', str ''mni''] (str ''mni+xyz+eng'')) \<and>
            str ''eng'' \<in> set (valid_langs_of [str ''eng'', str ''mni''] (str ''mni+xyz+eng''))"
    by (simp add: v1)
  have tx: "col_text example_data = Some [[], str ''xyzabc'', str ''qqrrss'']"
    by (simp add: example_data_def)
  have g3: "group_lines example_data (Suc (Suc (Suc 0))) = Inr [((1, 1, 1), example_line)]"
    using example_group_lines by (simp add: numeral_3_eq_3)
  from t1[THEN conjunct2, THEN conjunct2, THEN conjunct2, THEN conjunct2, THEN conjunct2,
      THEN conjunct2, THEN conjunct2] m1 example_engine_simps(1) example_engine_simps(2)
  have "ocr_image (example_engine [str ''eng'', str ''mni''] example_osd) example_page (str ''mni+xyz+eng'') =
     (case col_text example_data of
        None \<Rightarrow>
          (case image_to_string (example_engine [str ''eng'', str ''mni''] example_osd) example_page
                  (py_join (str ''+'') (valid_langs_of [str ''eng'', str ''mni''] (str ''mni+xyz+eng''))) of
             Inl e \<Rightarrow> None | Inr t \<Rightarrow> Some t)
      | Some texts \<Rightarrow>
          (case bind (group_lines example_data (length texts))
                  (\<lambda>lines. hybrid_loop (example_engine [str ''eng'', str ''mni''] example_osd) example_page
                     lines (sort (map fst lines)) []) of
             Inl e \<Rightarrow> None | Inr t \<Rightarrow> Some t))"
    by blast
  then have o1: "ocr_image (example_engine [str ''eng'', str ''mni''] example_osd) example_page (str ''mni+xyz+eng'') =
     Some (str ''mni: text'' @ newline)"
    using example_hybrid_loop[of "[str ''eng'', str ''mni'']" example_osd]
    by (simp add: tx g3 del: hybrid_loop.simps)
  have n3: "str ''hin+eng'' \<noteq> str ''auto''" by (simp add: str_def)
  have v3: "valid_langs_of [str ''eng'', str ''hin'', str ''mni''] (str ''hin+eng'') = [str ''hin'', str ''eng'']"
    by (simp add: valid_langs_of_def py_split_def str_def)
  have j3: "py_join (str ''+'') [str ''hin'', str ''eng''] = str ''hin+eng''"
    by (simp add: str_def)
  have nh3: "\<not> (str ''mni'' \<in> set (valid_langs_of [str ''eng'', str ''hin'', str ''mni''] (str ''hin+eng'')) \<and>
               str ''eng'' \<in> set (valid_langs_of [str ''eng'', str ''hin'', str ''mni''] (str ''hin+eng'')))"
    unfolding v3 by (simp add: str_def)
  note t3 = language_resolver_explicit[OF n3, of "example_engine [str ''eng'', str ''hin'', str ''mni''] example_osd"
      example_page "[str ''eng'', str ''hin'', str ''mni'']"]
  from t3[THEN conjunct2, THEN conjunct2, THEN conjunct2, THEN conjunct1] v3 j3
  have f3: "final_lang_of [str ''eng'', str ''hin'', str ''mni'']
              (valid_langs_of [str ''eng'', str ''hin'', str ''mni''] (str ''hin+eng'')) = Some (str ''hin+eng'')"
    by simp
  from t3[THEN conjunct2, THEN conjunct2, THEN conjunct2, THEN conjunct2, THEN conjunct2,
      THEN conjunct2, THEN conjunct1] example_engine_simps(1) nh3 f3
  have "ocr_image (example_engine [str ''eng'', str ''hin'', str ''mni''] example_osd) example_page (str ''hin+eng'') =
     (case image_to_string (example_engine [str ''eng'', str ''hin'', str ''mni''] example_osd) example_page
             (str ''hin+eng'') of Inl e \<Rightarrow> None | Inr t \<Rightarrow> Some t)"
    by blast
  then have o3: "ocr_image (example_engine [str ''eng'', str ''hin'', str ''mni''] example_osd) example_page (str ''hin+eng'') =
     Some (str ''hin+eng: text'')"
    by (simp add: example_engine_simps) (simp add: str_def)
  have n2: "str ''xyz'' \<noteq> str ''auto''" by (simp add: str_def)
  have v2: "valid_langs_of [str ''eng''] (str ''xyz'') = []"
    by (simp add: valid_langs_of_def py_split_def str_def)
  note t2 = language_resolver_explicit[OF n2, of "example_engine [str ''eng''] example_osd" example_page "[str ''eng'']"]
  from t2[THEN conjunct2, THEN conjunct2, THEN conjunct2, THEN conjunct2, THEN conjunct1] v2
  have f2: "final_lang_of [str ''eng''] (valid_langs_of [str ''eng''] (str ''xyz'')) = Some (str ''eng'')"
    by simp
  have nh2: "\<not> (str ''mni'' \<in> set (valid_langs_of [str ''eng''] (str ''xyz'')) \<and>
               str ''eng'' \<in> set (valid_langs_of [str ''eng''] (str ''xyz'')))"
    by (simp add: v2)
  from t2[THEN conjunct2, THEN conjunct2, THEN conjunct2, THEN conjunct2, THEN conjunct2,
      THEN conjunct2, THEN conjunct1] example_engine_simps(1) nh2 f2
  have "ocr_image (example_engine [str ''eng''] example_osd) example_page (str ''xyz'') =
     (case image_to_string (example_engine [str ''eng''] example_osd) example_page (str ''eng'') of
        Inl e \<Rightarrow> None | Inr t \<Rightarrow> Some t)"
    by blast
  then have o2: "ocr_image (example_engine [str ''eng''] example_osd) example_page (str ''xyz'') = Some (str ''eng: text'')"
    by (simp add: example_engine_simps) (simp add: str_def)
  from v1 f1 o1 v3 o3 v2 o2 show ?thesis by blast
qed

text \<open>
  Claim C6 as stated fails: for the request \<open>mni+eng\<close> with both codes installed the joined
  code is \<open>mni+eng\<close>, and an engine that raises whenever it is handed that code still
  recognizes the page, so the joined code is not the code passed to the engine.
\<close>

theorem joined_code_not_passed_counterexample:
  "valid_langs_of [str ''eng'', str ''mni''] (str ''mni+eng'') = [str ''mni'', str ''eng''] \<and>
   final_lang_of [str ''eng'', str ''mni''] [str ''mni'', str ''eng''] = Some (str ''mni+eng'') \<and>
   image_to_string joined_code_failing_engine example_page (str ''mni+eng'') = Inl EngineError \<and>
   ocr_image joined_code_failing_engine example_page (str ''mni+eng'') =
     Some (str ''mni: text'' @ newline)"
proof -
  have v: "valid_langs_of [str ''eng'', str ''mni''] (str ''mni+eng'') = [str ''mni'', str ''eng'']"
    by (simp add: valid_langs_of_def py_split_def str_def)
  have f: "final_lang_of [str ''eng'', str ''mni''] [str ''mni'', str ''eng''] = Some (str ''mni+eng'')"
    by (simp add: final_lang_of_def) (simp add: str_def)
  have r: "reocr_line joined_code_failing_engine example_page example_line = Inr (str ''mni: text'')"
    by (simp add: reocr_line_def example_crop_box joined_code_failing_engine_simps strip_mni_text)
  have t: "col_text example_data = Some [[], str ''xyzabc'', str ''qqrrss'']"
    by (simp add: example_data_def)
  have g: "group_lines example_data (Suc (Suc (Suc 0))) = Inr [((1, 1, 1), example_line)]"
    using example_group_lines by (simp add: numeral_3_eq_3)
  have b: "ocr_image_body joined_code_failing_engine example_page (str ''mni+eng'') =
      Inr (Some (str ''mni: text'' @ newline))"
    by (simp add: ocr_image_body_def joined_code_failing_engine_simps joined_valid_langs
        final_lang_of_def t g Let_def example_line_text example_line_text_nonempty
        example_line_not_eng r)
  have o: "ocr_image joined_code_failing_engine example_page (str ''mni+eng'') =
     Some (str ''mni: text'' @ newline)"
    by (simp add: ocr_image_def b)
  from v f joined_code_failing_engine_simps(4) o show ?thesis by blast
qed

subsection \<open>Editing a page\<close>

lemma edit_pages_Some:
  "i < length ps \<Longrightarrow> page_number (ps ! i) = n \<Longrightarrow> \<forall>j < i. page_number (ps ! j) \<noteq> n \<Longrightarrow>
   edit_pages n t ps = Some (ps[i := (ps ! i)\<lparr>page_text := t, page_status := edited\<rparr>])"
proof (induction ps arbitrary: i)
  case Nil
  then show ?case by simp
next
  case (Cons p ps)
  show ?case
  proof (cases i)
    case 0
    with Cons.prems show ?thesis by simp
  next
    case (Suc k)
    from Cons.prems(3) Suc have p: "page_number p \<noteq> n" by auto
    from Cons.prems Suc have k: "k < length ps" "page_number (ps ! k) = n" by simp_all
    from Cons.prems(3) Suc have "\<forall>j < k. page_number (ps ! j) \<noteq> n" by auto
    from Cons.IH[OF k this] p Suc show ?thesis by simp
  qed
qed

lemma edit_pages_None: "n \<notin> set (map page_number ps) \<Longrightarrow> edit_pages n t ps = None"
  by (induction ps) simp_all

lemma pages_loop_numbers:
  "map page_number (pages_loop eng lum lang k imgs) = map (\<lambda>j. int j + 1) [k..<k + length imgs]"
proof (induction imgs arbitrary: k)
  case Nil
  then show ?case by simp
next
  case (Cons img rest)
  have "[k..<k + length (img # rest)] = k # [Suc k..<Suc k + length rest]"
    using upt_conv_Cons[of k "k + Suc (length rest)"] by simp
  with Cons.IH[of "Suc k"] show ?case by (simp add: make_page_number)
qed

lemma extract_numbered:
  assumes "extract_text_from_pdf eng convert_from_path lum pdf_path lang did name = Inr (Some doc)"
  shows "numbered (pages doc) \<and> page_count doc = int (length (pages doc))"
proof -
  from assms obtain images where "convert_from_path pdf_path = Inr images" and "images \<noteq> []"
    and "doc = \<lparr>doc_id = did, source_file = name, language = lang,
                page_count = int (length images), pages = pages_loop eng lum lang 0 images\<rparr>"
    by (auto simp: extract_text_from_pdf_def pdf_to_images_def bind_eq_Inr
        split: sum.splits if_splits)
  then show ?thesis
    using pages_loop_numbers[of eng lum lang 0 images]
    by (simp add: numbered_def pages_loop_length)
qed

lemma edit_pages_numbered:
  "edit_pages n t ps = Some ps' \<Longrightarrow> map page_number ps' = map page_number ps"
  by (induction ps arbitrary: ps') (auto split: if_splits option.splits)

lemma db_get_id: "db_get db did = Some doc \<Longrightarrow> doc_id doc = did"
  by (auto simp: db_get_def find_Some_iff)

lemma db_get_update:
  "db_get db did = Some doc \<Longrightarrow> doc_id doc' = did \<Longrightarrow> db_get (db_update doc' did db) did = Some doc'"
  by (induction db) (auto simp: db_get_def db_update_def split: if_splits)

lemma db_get_update_other:
  "other \<noteq> did \<Longrightarrow> doc_id doc' = did \<Longrightarrow> db_get (db_update doc' did db) other = db_get db other"
  by (induction db) (auto simp: db_get_def db_update_def)

lemma numbered_nth: "numbered ps \<Longrightarrow> j < length ps \<Longrightarrow> page_number (ps ! j) = int j + 1"
proof -
  assume n: "numbered ps" and j: "j < length ps"
  from n have "map page_number ps ! j = map (\<lambda>j. int j + 1) [0..<length ps] ! j"
    by (simp add: numbered_def)
  with j show ?thesis by simp
qed

text \<open>
  Claim C9. Let the store hold a document under the given id whose pages are numbered
  1, 2, ... and whose \<open>page_count\<close> is the number of its pages (every extracted document is
  so, and editing keeps it so). For a page number \<open>n\<close> from 1 to \<open>page_count\<close> the edit
  answers \<open>Text updated\<close> and the stored document afterwards has the new text and the
  status \<open>edited\<close> on page \<open>n\<close>, every other page and every other field as before, and
  the documents under other ids are as before. For any other \<open>n\<close> the edit raises the 404
  exception \<open>Page not found in document\<close> and the store is unchanged.
\<close>

theorem edit_page_text_effect:
  assumes "db_get db did = Some doc" and "numbered (pages doc)"
    and "page_count doc = int (length (pages doc))"
  shows "(1 \<le> n \<and> n \<le> page_count doc \<longrightarrow>
      (\<exists>db' doc'. edit_page_text db did n new_text = (Inr (Text_updated did n), db') \<and>
         db_get db' did = Some doc' \<and>
         length (pages doc') = length (pages doc) \<and>
         page_text (pages doc' ! nat (n - 1)) = new_text \<and>
         page_status (pages doc' ! nat (n - 1)) = edited \<and>
         page_number (pages doc' ! nat (n - 1)) = n \<and>
         (\<forall>j < length (pages doc). j \<noteq> nat (n - 1) \<longrightarrow> pages doc' ! j = pages doc ! j) \<and>
         doc_id doc' = doc_id doc \<and> source_file doc' = source_file doc \<and>
         language doc' = language doc \<and> page_count doc' = page_count doc \<and>
         (\<forall>other. other \<noteq> did \<longrightarrow> db_get db' other = db_get db other))) \<and>
    (\<not> (1 \<le> n \<and> n \<le> page_count doc) \<longrightarrow>
      edit_page_text db did n new_text =
        (Inl (HTTPException 404 ''Page not found in document''), db))"
proof (cases "1 \<le> n \<and> n \<le> page_count doc")
  case True
  let ?i = "nat (n - 1)"
  let ?ps = "(pages doc)[?i := (pages doc ! ?i)\<lparr>page_text := new_text, page_status := edited\<rparr>]"
  let ?doc = "doc\<lparr>pages := ?ps\<rparr>"
  from True assms(3) have i: "?i < length (pages doc)" by auto
  have ni: "page_number (pages doc ! ?i) = n"
    using numbered_nth[OF assms(2) i] True by simp
  have before: "\<forall>j < ?i. page_number (pages doc ! j) \<noteq> n"
  proof (intro allI impI)
    fix j assume j: "j < ?i"
    with i have "j < length (pages doc)" by simp
    from numbered_nth[OF assms(2) this] j True show "page_number (pages doc ! j) \<noteq> n" by auto
  qed
  have ep: "edit_pages n new_text (pages doc) = Some ?ps"
    using edit_pages_Some[OF i ni before] .
  have e: "edit_page_text db did n new_text = (Inr (Text_updated did n), db_update ?doc did db)"
    by (simp add: edit_page_text_def assms(1) ep)
  have id: "doc_id ?doc = did" using db_get_id[OF assms(1)] by simp
  have g: "db_get (db_update ?doc did db) did = Some ?doc"
    using db_get_update[OF assms(1) id] .
  have o: "\<forall>other. other \<noteq> did \<longrightarrow> db_get (db_update ?doc did db) other = db_get db other"
    using db_get_update_other[OF _ id] by blast
  have p: "length (pages ?doc) = length (pages doc) \<and>
         page_text (pages ?doc ! ?i) = new_text \<and>
         page_status (pages ?doc ! ?i) = edited \<and>
         page_number (pages ?doc ! ?i) = n \<and>
         (\<forall>j < length (pages doc). j \<noteq> ?i \<longrightarrow> pages ?doc ! j = pages doc ! j) \<and>
         doc_id ?doc = doc_id doc \<and> source_file ?doc = source_file doc \<and>
         language ?doc = language doc \<and> page_count ?doc = page_count doc"
    using i ni by simp
  from e g o p True show ?thesis by blast
next
  case False
  have "n \<notin> set (map page_number (pages doc))"
  proof
    assume "n \<in> set (map page_number (pages doc))"
    then obtain j where j: "j < length (pages doc)" and "page_number (pages doc ! j) = n"
      by (auto simp: in_set_conv_nth)
    with numbered_nth[OF assms(2) j] have "n = int j + 1" by simp
    with j assms(3) False show False by auto
  qed
  then have "edit_pages n new_text (pages doc) = None" by (rule edit_pages_None)
  with False show ?thesis by (simp add: edit_page_text_def assms(1))
qed

lemma example_db_get: "db_get [other_doc, example_doc] (str ''d1'') = Some example_doc"
  by (simp add: db_get_def other_doc_def example_doc_def str_def)

lemma example_numbered: "numbered (pages example_doc)"
  by (simp add: numbered_def example_doc_def upt_rec)

lemma example_count: "page_count example_doc = int (length (pages example_doc))"
  by (simp add: example_doc_def)

theorem edit_page_text_effect_witness:
  "(\<exists>db' doc'. edit_page_text [other_doc, example_doc] (str ''d1'') 3 (str ''new'') =
       (Inr (Text_updated (str ''d1'') 3), db') \<and>
     db_get db' (str ''d1'') = Some doc' \<and>
     page_text (pages doc' ! 2) = str ''new'' \<and> page_status (pages doc' ! 2) = edited \<and>
     pages doc' ! 0 = pages example_doc ! 0 \<and> pages doc' ! 1 = pages example_doc ! 1 \<and>
     pages doc' ! 3 = pages example_doc ! 3 \<and> pages doc' ! 4 = pages example_doc ! 4) \<and>
   edit_page_text [other_doc, example_doc] (str ''d1'') 6 (str ''new'') =
     (Inl (HTTPException 404 ''Page not found in document''), [other_doc, example_doc])"
proof -
  note t3 = edit_page_text_effect[OF example_db_get example_numbered example_count,
      of 3 "str ''new''", THEN conjunct1]
  note t6 = edit_page_text_effect[OF example_db_get example_numbered example_count,
      of 6 "str ''new''", THEN conjunct2]
  have c: "page_count example_doc = 5" "length (pages example_doc) = 5" by (simp_all add: example_doc_def)
  from t3 c obtain db' doc' where
    e: "edit_page_text [other_doc, example_doc] (str ''d1'') 3 (str ''new'') =
       (Inr (Text_updated (str ''d1'') 3), db')"
    and g: "db_get db' (str ''d1'') = Some doc'"
    and x: "page_text (pages doc' ! nat (3 - 1)) = str ''new''"
    and s: "page_status (pages doc' ! nat (3 - 1)) = edited"
    and r: "\<forall>j < length (pages example_doc). j \<noteq> nat (3 - 1) \<longrightarrow> pages doc' ! j = pages example_doc ! j"
    by auto
  have n2: "nat (3 - 1) = 2" by simp
  from r c(2) have "pages doc' ! 0 = pages example_doc ! 0" "pages doc' ! 1 = pages example_doc ! 1"
    "pages doc' ! 3 = pages example_doc ! 3" "pages doc' ! 4 = pages example_doc ! 4"
    unfolding n2 by simp_all
  with e g x s have 1: "\<exists>db' doc'. edit_page_text [other_doc, example_doc] (str ''d1'') 3 (str ''new'') =
       (Inr (Text_updated (str ''d1'') 3), db') \<and>
     db_get db' (str ''d1'') = Some doc' \<and>
     page_text (pages doc' ! 2) = str ''new'' \<and> page_status (pages doc' ! 2) = edited \<and>
     pages doc' ! 0 = pages example_doc ! 0 \<and> pages doc' ! 1 = pages example_doc ! 1 \<and>
     pages doc' ! 3 = pages example_doc ! 3 \<and> pages doc' ! 4 = pages example_doc ! 4"
    unfolding n2 by blast
  from t6 c have 2: "edit_page_text [other_doc, example_doc] (str ''d1'') 6 (str ''new'') =
     (Inl (HTTPException 404 ''Page not found in document''), [other_doc, example_doc])" by simp
  from 1 2 show ?thesis by blast
qed

end
